theory Spec2Isabelle
  imports Complex_Main
begin

section \<open>The chat relay of \<^verbatim>\<open>server.js\<close>\<close>

text \<open>
  The Express server keeps one process-wide \<^verbatim>\<open>Map\<close>, \<^verbatim>\<open>chatSessions\<close>, from a session key
  to the chat object handed out by the generative-AI client, and registers three routes:
  \<^verbatim>\<open>POST /api/chat\<close>, \<^verbatim>\<open>GET /api/health\<close> and \<^verbatim>\<open>DELETE /api/chat/:sessionId\<close>.
  The handlers are embedded as functions over an explicit server state. The generative-AI
  client is a collaborator outside the source: what it answers to a call is an input of the
  model, and what the handlers ask of it is recorded in the state.
\<close>

subsection \<open>JavaScript values\<close>

text \<open>
  A parsed JSON value, and \<^verbatim>\<open>undefined\<close> for a property that is absent. Numbers are
  integers here; the handlers only test a number for truthiness and for its type.
\<close>

datatype jsval =
    JUndefined
  | JNull
  | JBool bool
  | JNum int
  | JStr string
  | JArr "jsval list"
  | JObj "(string \<times> jsval) list"

text \<open>\<^verbatim>\<open>!v\<close> is true of the falsy values: undefined, null, false, 0 and the empty string.\<close>

fun truthy :: "jsval \<Rightarrow> bool" where
  "truthy JUndefined = False"
| "truthy JNull = False"
| "truthy (JBool b) = b"
| "truthy (JNum n) = (n \<noteq> 0)"
| "truthy (JStr s) = (s \<noteq> [])"
| "truthy (JArr xs) = True"
| "truthy (JObj kvs) = True"

fun typeof :: "jsval \<Rightarrow> string" where
  "typeof JUndefined = ''undefined''"
| "typeof JNull = ''object''"
| "typeof (JBool b) = ''boolean''"
| "typeof (JNum n) = ''number''"
| "typeof (JStr s) = ''string''"
| "typeof (JArr xs) = ''object''"
| "typeof (JObj kvs) = ''object''"

text \<open>
  Strings are lists of code units below 256. The white space and line terminators that
  \<^verbatim>\<open>String.prototype.trim\<close> strips are, in that range, TAB, LF, VT, FF, CR, SPACE and NBSP.
\<close>

definition isWhiteSpace :: "char \<Rightarrow> bool" where
  "isWhiteSpace c \<longleftrightarrow> (of_char c :: nat) \<in> {9, 10, 11, 12, 13, 32, 160}"

definition trim :: "string \<Rightarrow> string" where
  "trim s = rev (dropWhile isWhiteSpace (rev (dropWhile isWhiteSpace s)))"

fun startsWith :: "string \<Rightarrow> string \<Rightarrow> bool" where
  "startsWith s [] = True"
| "startsWith [] (c # cs) = False"
| "startsWith (x # xs) (c # cs) = (x = c \<and> startsWith xs cs)"

text \<open>\<^verbatim>\<open>s.includes(sub)\<close>: \<open>sub\<close> occurs in \<open>s\<close> as a contiguous run.\<close>

fun str_includes :: "string \<Rightarrow> string \<Rightarrow> bool" where
  "str_includes [] sub = (sub = [])"
| "str_includes (x # xs) sub = (startsWith (x # xs) sub \<or> str_includes xs sub)"

subsection \<open>The session table\<close>

text \<open>
  A JavaScript \<^verbatim>\<open>Map\<close> iterates in insertion order and \<^verbatim>\<open>set\<close> on a key that is present
  keeps the key's place, so the table is an association list: \<^verbatim>\<open>get\<close> reads the first
  entry of a key, \<^verbatim>\<open>set\<close> replaces it or appends, \<^verbatim>\<open>delete\<close> removes it.
\<close>

definition Map_get :: "('k \<times> 'v) list \<Rightarrow> 'k \<Rightarrow> 'v option" where
  "Map_get m k = map_of m k"

fun Map_set :: "'k \<Rightarrow> 'v \<Rightarrow> ('k \<times> 'v) list \<Rightarrow> ('k \<times> 'v) list" where
  "Map_set k v [] = [(k, v)]"
| "Map_set k v (p # ps) = (if fst p = k then (k, v) # ps else p # Map_set k v ps)"

definition Map_delete :: "'k \<Rightarrow> ('k \<times> 'v) list \<Rightarrow> ('k \<times> 'v) list" where
  "Map_delete k m = filter (\<lambda>p. fst p \<noteq> k) m"

definition Map_keys :: "('k \<times> 'v) list \<Rightarrow> 'k list" where
  "Map_keys m = map fst m"

text \<open>The number of entries a table holds under one key.\<close>

definition entries_for :: "'k \<Rightarrow> ('k \<times> 'v) list \<Rightarrow> nat" where
  "entries_for k m = length (filter (\<lambda>p. fst p = k) m)"

subsection \<open>Chat objects and the collaborator\<close>

record generation_config =
  maxOutputTokens :: nat
  temperature :: rat
  topP :: rat
  topK :: nat

text \<open>
  The object \<^verbatim>\<open>model.startChat\<close> returns. \<open>chatId\<close> is the object's identity: two chats
  started with the same instruction and parameters are still two objects. The turns of a
  conversation belong to the collaborator; the model keeps them as the \<open>SendMessage\<close>
  entries of the call record below.
\<close>

record chat_session =
  chatId :: nat
  model :: string
  systemInstruction :: "string option"
  generationConfig :: generation_config

datatype upstream_call =
    StartChat string "string option" generation_config
  | SendMessage nat string

text \<open>What the collaborator does when asked for a chat, and when sent a message.
  \<open>SendRejects\<close> stands for any error of the send step that carries a message string,
  \<open>TimerFirst\<close> for the 30 second timer of the handler settling the race first.\<close>

datatype create_outcome = CreateOk | CreateThrows string

datatype send_outcome = SendResolves string | SendRejects string | TimerFirst

record server =
  chatSessions :: "(string \<times> chat_session) list"
  created :: nat
  upstreamCalls :: "upstream_call list"

definition initial :: server where
  "initial = \<lparr>chatSessions = [], created = 0, upstreamCalls = []\<rparr>"

subsection \<open>The instructions of the three user types\<close>

definition instruction_aspiring :: string where
  "instruction_aspiring =
     ''You are an entrepreneurship AI mentor and people can ask you suggestions and '' @
     ''instructions to how to start or implement their business idea in real time. You '' @
     ''have to provide them the step by step procedures to implement their business '' @
     ''and helps them to become an entrepreneur.\<newline>'' @
     ''    \<newline>'' @
     ''    Focus on:\<newline>'' @
     ''    - Step-by-step implementation procedures\<newline>'' @
     ''    - Practical and actionable advice\<newline>'' @
     ''    - Legal requirements and compliance\<newline>'' @
     ''    - Market validation strategies\<newline>'' @
     ''    - Startup fundamentals and best practices\<newline>'' @
     ''    - Resource allocation and budgeting\<newline>'' @
     ''    - Timeline planning and milestones\<newline>'' @
     ''    \<newline>'' @
     ''    Always provide detailed, structured responses with clear action items.''"

definition instruction_existing :: string where
  "instruction_existing =
     ''You are a business growth strategist and digital transformation expert.\<newline>'' @
     ''    Help existing business owners scale, automate, and digitally transform '' @
     ''their businesses.\<newline>'' @
     ''    Provide suggestions on marketing strategies, technology adoption, '' @
     ''operational efficiency, and funding options.\<newline>'' @
     ''    Focus on growth tactics, competitive positioning, and sustainable business '' @
     ''expansion.\<newline>'' @
     ''    \<newline>'' @
     ''    Always provide step-by-step guidance for implementation.''"

definition instruction_general :: string where
  "instruction_general =
     ''You are an entrepreneurship AI mentor and people can ask you suggestions and '' @
     ''instructions to how to start or implement their business idea in real time. You '' @
     ''have to provide them the step by step procedures to implement their business '' @
     ''and helps them to become an entrepreneur.''"

definition instructions :: "(string \<times> string) list" where
  "instructions =
     [(''aspiring'', instruction_aspiring),
      (''existing'', instruction_existing),
      (''general'', instruction_general)]"

subsection \<open>\<^verbatim>\<open>POST /api/chat\<close>\<close>

text \<open>
  The request body after \<^verbatim>\<open>express.json()\<close>: an object whose properties \<open>message\<close> and
  \<open>userType\<close> hold any JSON value, or \<open>JUndefined\<close> when absent. \<open>sessionId\<close> is a string
  or absent, as the interface documents it.
\<close>

record chat_body =
  message :: jsval
  userType :: jsval
  sessionId :: "string option"

record response =
  status :: nat
  body :: "(string \<times> jsval) list"

text \<open>\<^verbatim>\<open>res.status(code).json(obj)\<close>: serialising drops the properties whose value is
  \<^verbatim>\<open>undefined\<close>.\<close>

definition res_json :: "nat \<Rightarrow> (string \<times> jsval) list \<Rightarrow> response" where
  "res_json code obj = \<lparr>status = code, body = filter (\<lambda>p. snd p \<noteq> JUndefined) obj\<rparr>"

definition validUserTypes :: "string list" where
  "validUserTypes = [''aspiring'', ''existing'', ''general'']"

text \<open>\<^verbatim>\<open>const { userType = 'general' } = req.body\<close> then
  \<^verbatim>\<open>validUserTypes.includes(userType) ? userType : 'general'\<close>: only a string is ever equal
  to an element of the array.\<close>

definition selectedUserType :: "jsval \<Rightarrow> string" where
  "selectedUserType u =
     (case (if u = JUndefined then JStr ''general'' else u) of
        JStr t \<Rightarrow> if t \<in> set validUserTypes then t else ''general''
      | _ \<Rightarrow> ''general'')"

definition sessionId_or_default :: "string option \<Rightarrow> string" where
  "sessionId_or_default sid = (case sid of None \<Rightarrow> ''default'' | Some i \<Rightarrow> i)"

definition sessionKey :: "string \<Rightarrow> string \<Rightarrow> string" where
  "sessionKey ut sid = ut @ ''_'' @ sid"

text \<open>\<^verbatim>\<open>!message || typeof message !== 'string' || message.trim().length === 0\<close>\<close>

definition invalid_message :: "jsval \<Rightarrow> bool" where
  "invalid_message m \<longleftrightarrow>
     \<not> truthy m \<or> typeof m \<noteq> ''string'' \<or>
     (case m of JStr t \<Rightarrow> length (trim t) = 0 | _ \<Rightarrow> True)"

definition trimmed :: "jsval \<Rightarrow> string" where
  "trimmed m = (case m of JStr t \<Rightarrow> trim t | _ \<Rightarrow> [])"

definition defaultGenerationConfig :: generation_config where
  "defaultGenerationConfig =
     \<lparr>maxOutputTokens = 1500, temperature = 7 / 10, topP = 8 / 10, topK = 40\<rparr>"

text \<open>
  \<^verbatim>\<open>genAI.getGenerativeModel\<close> and \<^verbatim>\<open>model.startChat\<close> for user type \<open>ut\<close>: the chat object
  they return when neither throws, in a state where \<open>created s\<close> chats exist already.
\<close>

definition new_chat :: "server \<Rightarrow> string \<Rightarrow> chat_session" where
  "new_chat s ut =
     \<lparr>chatId = created s, model = ''gemini-1.5-flash'',
      systemInstruction = map_of instructions ut,
      generationConfig = defaultGenerationConfig\<rparr>"

text \<open>
  An \<^verbatim>\<open>async\<close> handler runs without interruption up to its first \<^verbatim>\<open>await\<close>. For this
  handler that is \<^verbatim>\<open>await Promise.race([chatPromise, timeoutPromise])\<close>: the validation,
  the lookup in \<^verbatim>\<open>chatSessions\<close>, the creation and \<^verbatim>\<open>set\<close> of a new chat and the call of
  \<^verbatim>\<open>chat.sendMessage\<close> all lie before it. \<open>chat_begin\<close> is that first part. It ends in a
  response (validation or creation failed) or in the handler suspended on the race.
\<close>

record pending =
  p_chat :: chat_session
  p_sessionKey :: string
  p_userType :: string
  p_sessionId :: string

definition send_to :: "server \<Rightarrow> chat_session \<Rightarrow> string \<Rightarrow> server" where
  "send_to s chat text =
     s\<lparr>upstreamCalls := upstreamCalls s @ [SendMessage (chatId chat) text]\<rparr>"

definition chat_begin :: "server \<Rightarrow> chat_body \<Rightarrow> create_outcome \<Rightarrow> (response + pending) \<times> server" where
  "chat_begin s req co =
     (if invalid_message (message req) then
        (Inl (res_json 400
           [(''error'', JStr ''Message is required and must be a non-empty string''),
            (''success'', JBool False)]), s)
      else
        let ut = selectedUserType (userType req);
            sid = sessionId_or_default (sessionId req);
            key = sessionKey ut sid
        in case Map_get (chatSessions s) key of
             Some chat \<Rightarrow>
               (Inr \<lparr>p_chat = chat, p_sessionKey = key, p_userType = ut, p_sessionId = sid\<rparr>,
                send_to s chat (trimmed (message req)))
           | None \<Rightarrow>
               let asked = s\<lparr>upstreamCalls := upstreamCalls s @
                     [StartChat ''gemini-1.5-flash'' (map_of instructions ut) defaultGenerationConfig]\<rparr>
               in case co of
                    CreateThrows e \<Rightarrow>
                      (Inl (res_json 500
                         [(''error'', JStr ''Failed to initialize AI model''),
                          (''details'', JStr ''Please check API key and model configuration''),
                          (''success'', JBool False)]), asked)
                  | CreateOk \<Rightarrow>
                      let chat = new_chat s ut;
                          stored = asked\<lparr>chatSessions := Map_set key chat (chatSessions s),
                                         created := Suc (created s)\<rparr>
                      in (Inr \<lparr>p_chat = chat, p_sessionKey = key, p_userType = ut, p_sessionId = sid\<rparr>,
                          send_to stored chat (trimmed (message req))))"

text \<open>
  The \<^verbatim>\<open>catch\<close> block of the handler, for an error whose \<^verbatim>\<open>message\<close> is \<open>msg\<close>.
  \<open>node_env\<close> is \<^verbatim>\<open>process.env.NODE_ENV\<close> and \<open>now\<close> the clock's ISO string.
\<close>

definition classify :: "string \<Rightarrow> string \<times> nat" where
  "classify msg =
     (if msg = ''Request timeout'' then (''Request timed out. Please try again.'', 408)
      else if str_includes msg ''API key'' then (''Invalid API configuration'', 401)
      else if str_includes msg ''quota'' then (''API quota exceeded. Please try again later.'', 429)
      else (''Failed to process chat message'', 500))"

definition catch_error :: "string option \<Rightarrow> string \<Rightarrow> string \<Rightarrow> response" where
  "catch_error node_env now msg =
     (let (errorMessage, statusCode) = classify msg
      in res_json statusCode
           [(''error'', JStr errorMessage),
            (''details'', if node_env = Some ''development'' then JStr msg else JUndefined),
            (''success'', JBool False),
            (''timestamp'', JStr now)])"

text \<open>The rest of the handler, once the race has settled.\<close>

definition chat_resume :: "string option \<Rightarrow> string \<Rightarrow> pending \<Rightarrow> send_outcome \<Rightarrow> response" where
  "chat_resume node_env now p so =
     (case so of
        SendResolves reply \<Rightarrow>
          res_json 200
            [(''reply'', JStr (trim reply)),
             (''userType'', JStr (p_userType p)),
             (''sessionId'', JStr (p_sessionId p)),
             (''success'', JBool True),
             (''timestamp'', JStr now)]
      | SendRejects msg \<Rightarrow> catch_error node_env now msg
      | TimerFirst \<Rightarrow> catch_error node_env now ''Request timeout'')"

text \<open>One request served from start to end.\<close>

definition post_api_chat ::
    "string option \<Rightarrow> string \<Rightarrow> server \<Rightarrow> chat_body \<Rightarrow> create_outcome \<Rightarrow> send_outcome \<Rightarrow> response \<times> server" where
  "post_api_chat node_env now s req co so =
     (case chat_begin s req co of
        (Inl r, s') \<Rightarrow> (r, s')
      | (Inr p, s') \<Rightarrow> (chat_resume node_env now p so, s'))"

subsection \<open>\<^verbatim>\<open>DELETE /api/chat/:sessionId\<close>\<close>

text \<open>\<open>sid\<close> is the route parameter and \<open>q\<close> the \<open>userType\<close> of the query string, if given.\<close>

definition delete_api_chat :: "server \<Rightarrow> string \<Rightarrow> string option \<Rightarrow> response \<times> server" where
  "delete_api_chat s sid q =
     (let ut = (case q of None \<Rightarrow> ''aspiring'' | Some u \<Rightarrow> u);
          key = sessionKey ut sid
      in (res_json 200 [(''message'', JStr ''Chat session cleared'')],
          s\<lparr>chatSessions := Map_delete key (chatSessions s)\<rparr>))"

text \<open>The session key \<^verbatim>\<open>POST /api/chat\<close> computes for a request body.\<close>

definition key_of :: "chat_body \<Rightarrow> string" where
  "key_of req = sessionKey (selectedUserType (userType req)) (sessionId_or_default (sessionId req))"

text \<open>The session key \<^verbatim>\<open>DELETE /api/chat/:sessionId\<close> computes.\<close>

definition delete_key_of :: "string option \<Rightarrow> string \<Rightarrow> string" where
  "delete_key_of q sid = sessionKey (case q of None \<Rightarrow> ''aspiring'' | Some u \<Rightarrow> u) sid"

subsection \<open>Requests served one after another\<close>

text \<open>
  A request to either handler with what the collaborator and the clock answer to it, the
  state after serving one request and after serving a list of them in order, and whether a
  request is a delete of the entry under key \<open>k\<close>.
\<close>

datatype request =
    Chat string chat_body create_outcome send_outcome
  | Clear string "string option"

fun serve :: "string option \<Rightarrow> server \<Rightarrow> request \<Rightarrow> server" where
  "serve node_env s (Chat now req co so) = snd (post_api_chat node_env now s req co so)"
| "serve node_env s (Clear sid q) = snd (delete_api_chat s sid q)"

fun serve_all :: "string option \<Rightarrow> server \<Rightarrow> request list \<Rightarrow> server" where
  "serve_all node_env s [] = s"
| "serve_all node_env s (r # rs) = serve_all node_env (serve node_env s r) rs"

fun clears :: "string \<Rightarrow> request \<Rightarrow> bool" where
  "clears k (Chat now req co so) = False"
| "clears k (Clear sid q) = ((case q of None \<Rightarrow> ''aspiring'' | Some u \<Rightarrow> u) @ ''_'' @ sid = k)"

subsection \<open>The states the server reaches\<close>

text \<open>
  The server starts with an empty table. Only the first part of the chat handler and the
  delete handler change the state.
\<close>

inductive reachable :: "server \<Rightarrow> bool" where
  reachable_initial: "reachable initial"
| reachable_chat: "reachable s \<Longrightarrow> reachable (snd (chat_begin s req co))"
| reachable_delete: "reachable s \<Longrightarrow> reachable (snd (delete_api_chat s sid q))"

subsection \<open>Requests in flight\<close>

text \<open>
  Node runs one handler at a time and switches between requests only where a handler
  awaits. A request is therefore in one of three conditions: arrived and not yet run,
  suspended on the race between the send and the timer, or answered. The event loop picks
  a request and runs its next part; \<open>run\<close> does so along a schedule, a list of request
  indices, each with the clock reading of that moment. Every order in which the parts of
  several requests can be interleaved is a schedule.
\<close>

datatype task =
    Arrived chat_body create_outcome send_outcome
  | Awaiting pending send_outcome
  | Responded response

definition step :: "string option \<Rightarrow> nat \<times> string \<Rightarrow> server \<times> task list \<Rightarrow> server \<times> task list" where
  "step node_env ev cfg =
     (let (i, now) = ev; (s, ts) = cfg
      in if i < length ts then
           (case ts ! i of
              Arrived req co so \<Rightarrow>
                (case chat_begin s req co of
                   (Inl r, s') \<Rightarrow> (s', ts[i := Responded r])
                 | (Inr p, s') \<Rightarrow> (s', ts[i := Awaiting p so]))
            | Awaiting p so \<Rightarrow> (s, ts[i := Responded (chat_resume node_env now p so)])
            | Responded r \<Rightarrow> (s, ts))
         else (s, ts))"

fun run :: "string option \<Rightarrow> (nat \<times> string) list \<Rightarrow> server \<times> task list \<Rightarrow> server \<times> task list" where
  "run node_env [] cfg = cfg"
| "run node_env (ev # evs) cfg = run node_env evs (step node_env ev cfg)"

text \<open>
  What holds of the requests in flight for one key \<open>k\<close> once the first of them has run,
  where \<open>c0\<close> and \<open>calls0\<close> are the counter of chats and the call record from before: the
  table holds one chat under \<open>k\<close>, the one then created; every suspended request holds that
  chat; and the collaborator was asked for one chat and after that only sent messages on it.
\<close>

definition started :: "string \<Rightarrow> nat \<Rightarrow> upstream_call list \<Rightarrow> server \<times> task list \<Rightarrow> bool" where
  "started k c0 calls0 cfg \<longleftrightarrow>
     (\<exists>h sent.
        Map_get (chatSessions (fst cfg)) k = Some h \<and> chatId h = c0 \<and>
        created (fst cfg) = Suc c0 \<and>
        entries_for k (chatSessions (fst cfg)) = 1 \<and>
        upstreamCalls (fst cfg) =
          calls0 @ StartChat (model h) (systemInstruction h) (generationConfig h) # map (SendMessage c0) sent \<and>
        (\<forall>t \<in> set (snd cfg).
           case t of
             Arrived req co so \<Rightarrow> \<not> invalid_message (message req) \<and> key_of req = k
           | Awaiting p so \<Rightarrow> p_chat p = h
           | Responded r \<Rightarrow> True))"

subsection \<open>Listing the sessions\<close>

text \<open>
  Modelled from the spec: the operation \<open>listActiveSessions\<close> (\<^verbatim>\<open>GET /api/sessions\<close>).
  \<^verbatim>\<open>server.js\<close> registers no such route; the setup guide documents it for the Python server
  of the repository, whose source is not among the files. The definition follows the
  spec's words: a copy of the keys the table holds at that moment and their count, with a
  timestamp, answered with status 200.
\<close>

definition listActiveSessions :: "string \<Rightarrow> server \<Rightarrow> response \<times> server" where
  "listActiveSessions now s =
     (res_json 200
        [(''activeSessions'', JNum (int (length (Map_keys (chatSessions s))))),
         (''sessions'', JArr (map JStr (Map_keys (chatSessions s)))),
         (''timestamp'', JStr now)], s)"

section \<open>Properties\<close>

subsection \<open>Strings and the table\<close>

lemma startsWith_iff: "startsWith s sub \<longleftrightarrow> (\<exists>ss. s = sub @ ss)"
  by (induction s sub rule: startsWith.induct) auto

text \<open>\<open>str_includes\<close> is the substring test.\<close>

lemma str_includes_iff: "str_includes s sub \<longleftrightarrow> (\<exists>ps ss. s = ps @ sub @ ss)"
proof (induction s)
  case Nil
  then show ?case by auto
next
  case (Cons x xs)
  show ?case
  proof
    assume "str_includes (x # xs) sub"
    then consider "startsWith (x # xs) sub" | "str_includes xs sub" by auto
    then show "\<exists>ps ss. x # xs = ps @ sub @ ss"
    proof cases
      case 1
      then obtain ss where "x # xs = sub @ ss" by (auto simp: startsWith_iff)
      then have "x # xs = [] @ sub @ ss" by simp
      then show ?thesis by blast
    next
      case 2
      then obtain ps ss where "xs = ps @ sub @ ss" using Cons.IH by blast
      then have "x # xs = (x # ps) @ sub @ ss" by simp
      then show ?thesis by blast
    qed
  next
    assume "\<exists>ps ss. x # xs = ps @ sub @ ss"
    then obtain ps ss where eq: "x # xs = ps @ sub @ ss" by blast
    show "str_includes (x # xs) sub"
    proof (cases ps)
      case Nil
      with eq have "startsWith (x # xs) sub" by (auto simp: startsWith_iff)
      then show ?thesis by simp
    next
      case (Cons p ps')
      with eq have "xs = ps' @ sub @ ss" by simp
      then have "str_includes xs sub" using Cons.IH by blast
      then show ?thesis by simp
    qed
  qed
qed

text \<open>A string trims to the empty string exactly when it is white space throughout.\<close>

lemma trim_empty_iff: "trim t = [] \<longleftrightarrow> (\<forall>c \<in> set t. isWhiteSpace c)"
proof
  assume "trim t = []"
  then have all: "\<forall>x \<in> set (dropWhile isWhiteSpace t). isWhiteSpace x"
    by (simp add: trim_def dropWhile_eq_Nil_conv)
  have "dropWhile isWhiteSpace t = []"
  proof (rule ccontr)
    assume ne: "dropWhile isWhiteSpace t \<noteq> []"
    then have "\<not> isWhiteSpace (hd (dropWhile isWhiteSpace t))" by (rule hd_dropWhile)
    moreover have "hd (dropWhile isWhiteSpace t) \<in> set (dropWhile isWhiteSpace t)"
      using ne by simp
    ultimately show False using all by blast
  qed
  then show "\<forall>c \<in> set t. isWhiteSpace c" by (simp add: dropWhile_eq_Nil_conv)
next
  assume "\<forall>c \<in> set t. isWhiteSpace c"
  then have d: "dropWhile isWhiteSpace t = []" by (simp add: dropWhile_eq_Nil_conv)
  show "trim t = []" by (simp only: trim_def d rev.simps dropWhile.simps)
qed

lemma Map_get_set: "Map_get (Map_set k v m) k' = (if k' = k then Some v else Map_get m k')"
  by (induction m) (auto simp: Map_get_def)

lemma Map_get_delete: "Map_get (Map_delete k m) k' = (if k' = k then None else Map_get m k')"
  by (induction m) (auto simp: Map_get_def Map_delete_def)

lemma Map_get_None_iff: "Map_get m k = None \<longleftrightarrow> k \<notin> set (Map_keys m)"
  by (simp add: Map_get_def Map_keys_def map_of_eq_None_iff)

lemma entries_for_absent: "Map_get m k = None \<Longrightarrow> entries_for k m = 0"
  by (induction m) (auto simp: Map_get_def entries_for_def split: if_splits)

lemma entries_for_set:
  "entries_for k (Map_set k v m) = (if Map_get m k = None then 1 else entries_for k m)"
  by (induction m) (auto simp: Map_get_def entries_for_def)

lemma Map_delete_absent: "Map_get m k = None \<Longrightarrow> Map_delete k m = m"
  by (induction m) (auto simp: Map_get_def Map_delete_def split: if_splits)

lemma Map_keys_set: "set (Map_keys (Map_set k v m)) = insert k (set (Map_keys m))"
  by (induction m) (auto simp: Map_keys_def)

lemma Map_keys_delete: "set (Map_keys (Map_delete k m)) = set (Map_keys m) - {k}"
  by (auto simp: Map_keys_def Map_delete_def)

lemma distinct_Map_set: "distinct (Map_keys m) \<Longrightarrow> distinct (Map_keys (Map_set k v m))"
  using Map_keys_set [of k v] by (induction m) (auto simp: Map_keys_def)

lemma distinct_Map_delete: "distinct (Map_keys m) \<Longrightarrow> distinct (Map_keys (Map_delete k m))"
  by (simp add: Map_keys_def Map_delete_def distinct_map_filter)

subsection \<open>Validation\<close>

text \<open>The handler's test of the message, in words: the message is rejected exactly when it
  is absent, is not a string, or trims to the empty string.\<close>

lemma invalid_message_iff:
  "invalid_message m \<longleftrightarrow>
     m = JUndefined \<or> typeof m \<noteq> ''string'' \<or> (\<exists>t. m = JStr t \<and> trim t = [])"
  by (cases m) (auto simp: invalid_message_def trim_def)

text \<open>
  Claim C3. A request whose message is absent, is not a string, or is a string that trims
  to the empty string is answered with status 400 and the validation error; the
  collaborator is not called and the server state, the session table with it, is as
  before.
\<close>

theorem invalid_message_rejected:
  assumes "message req = JUndefined \<or> typeof (message req) \<noteq> ''string'' \<or>
           (\<exists>t. message req = JStr t \<and> trim t = [])"
  shows "post_api_chat node_env now s req co so =
           (res_json 400
              [(''error'', JStr ''Message is required and must be a non-empty string''),
               (''success'', JBool False)], s) \<and>
         status (fst (post_api_chat node_env now s req co so)) = 400 \<and>
         upstreamCalls (snd (post_api_chat node_env now s req co so)) = upstreamCalls s \<and>
         chatSessions (snd (post_api_chat node_env now s req co so)) = chatSessions s"
proof -
  have "invalid_message (message req)"
    using assms by (cases "message req") (auto simp: invalid_message_def)
  then show ?thesis
    by (simp add: post_api_chat_def chat_begin_def res_json_def)
qed

theorem invalid_message_rejected_witness:
  "typeof (message \<lparr>message = JNull, userType = JStr ''aspiring'', sessionId = Some ''s1''\<rparr>)
     \<noteq> ''string'' \<and>
   post_api_chat (Some ''production'') ''2024-01-01T12:00:00.000Z'' initial
      \<lparr>message = JNull, userType = JStr ''aspiring'', sessionId = Some ''s1''\<rparr>
      CreateOk (SendResolves ''hello'') =
     (\<lparr>status = 400,
       body = [(''error'', JStr ''Message is required and must be a non-empty string''),
               (''success'', JBool False)]\<rparr>, initial) \<and>
   chatSessions (snd (post_api_chat (Some ''production'') ''2024-01-01T12:00:00.000Z'' initial
      \<lparr>message = JNull, userType = JStr ''aspiring'', sessionId = Some ''s1''\<rparr>
      CreateOk (SendResolves ''hello''))) = []"
  using invalid_message_rejected
    [of "\<lparr>message = JNull, userType = JStr ''aspiring'', sessionId = Some ''s1''\<rparr>"
      "Some ''production''" "''2024-01-01T12:00:00.000Z''" initial CreateOk "SendResolves ''hello''"]
  by (simp add: res_json_def initial_def)

subsection \<open>The first part of the chat handler, case by case\<close>

lemma selectedUserType_valid: "selectedUserType u \<in> set validUserTypes"
  by (cases u) (auto simp: selectedUserType_def validUserTypes_def)

lemma instructions_selected:
  "map_of instructions (selectedUserType u) =
     Some (if selectedUserType u = ''aspiring'' then instruction_aspiring
           else if selectedUserType u = ''existing'' then instruction_existing
           else instruction_general)"
  using selectedUserType_valid [of u] by (auto simp: instructions_def validUserTypes_def)

lemma chat_begin_present:
  assumes "\<not> invalid_message (message req)" and "Map_get (chatSessions s) (key_of req) = Some h"
  shows "chat_begin s req co =
    (Inr \<lparr>p_chat = h, p_sessionKey = key_of req, p_userType = selectedUserType (userType req),
          p_sessionId = sessionId_or_default (sessionId req)\<rparr>,
     send_to s h (trimmed (message req)))"
  using assms by (simp add: chat_begin_def key_of_def Let_def)

lemma chat_begin_created:
  assumes "\<not> invalid_message (message req)" and "Map_get (chatSessions s) (key_of req) = None"
  shows "chat_begin s req CreateOk =
    (Inr \<lparr>p_chat = new_chat s (selectedUserType (userType req)), p_sessionKey = key_of req,
          p_userType = selectedUserType (userType req),
          p_sessionId = sessionId_or_default (sessionId req)\<rparr>,
     send_to (s\<lparr>upstreamCalls := upstreamCalls s @
                 [StartChat ''gemini-1.5-flash'' (map_of instructions (selectedUserType (userType req)))
                    defaultGenerationConfig],
               chatSessions := Map_set (key_of req) (new_chat s (selectedUserType (userType req)))
                                 (chatSessions s),
               created := Suc (created s)\<rparr>)
       (new_chat s (selectedUserType (userType req))) (trimmed (message req)))"
  using assms by (simp add: chat_begin_def key_of_def Let_def)

lemma chat_begin_create_throws:
  assumes "\<not> invalid_message (message req)" and "Map_get (chatSessions s) (key_of req) = None"
  shows "chat_begin s req (CreateThrows e) =
    (Inl (res_json 500
        [(''error'', JStr ''Failed to initialize AI model''),
         (''details'', JStr ''Please check API key and model configuration''),
         (''success'', JBool False)]),
     s\<lparr>upstreamCalls := upstreamCalls s @
          [StartChat ''gemini-1.5-flash'' (map_of instructions (selectedUserType (userType req)))
             defaultGenerationConfig]\<rparr>)"
  using assms by (simp add: chat_begin_def key_of_def Let_def)


lemma valid_hello: "\<not> invalid_message (JStr ''How do I start a bakery?'')"
  by (simp add: invalid_message_def trim_def isWhiteSpace_def)


lemma send_to_fields [simp]:
  "chatSessions (send_to s h t) = chatSessions s"
  "created (send_to s h t) = created s"
  "upstreamCalls (send_to s h t) = upstreamCalls s @ [SendMessage (chatId h) t]"
  by (simp_all add: send_to_def)

lemma post_state_begin: "snd (post_api_chat node_env now s req co so) = snd (chat_begin s req co)"
  by (simp add: post_api_chat_def split: prod.splits sum.splits)


lemma chat_begin_table:
  "chatSessions (snd (chat_begin s req co)) =
     (if \<not> invalid_message (message req) \<and> Map_get (chatSessions s) (key_of req) = None \<and> co = CreateOk
      then Map_set (key_of req) (new_chat s (selectedUserType (userType req))) (chatSessions s)
      else chatSessions s)"
proof (cases "invalid_message (message req)")
  case True
  then show ?thesis by (simp add: chat_begin_def)
next
  case v: False
  show ?thesis
  proof (cases "Map_get (chatSessions s) (key_of req)")
    case (Some h)
    then show ?thesis using v by (simp add: chat_begin_present)
  next
    case None
    then show ?thesis using v
      by (cases co) (simp_all add: chat_begin_created chat_begin_create_throws)
  qed
qed

lemma chat_begin_stores:
  assumes "\<not> invalid_message (message req)"
      and "co = CreateOk \<or> Map_get (chatSessions s) (key_of req) \<noteq> None"
  shows "Map_get (chatSessions (snd (chat_begin s req co))) (key_of req) \<noteq> None"
  using assms by (auto simp: chat_begin_table Map_get_set)

lemma chat_begin_cases:
  obtains (invalid) "invalid_message (message req)"
      "chat_begin s req co = (Inl (res_json 400
           [(''error'', JStr ''Message is required and must be a non-empty string''),
            (''success'', JBool False)]), s)"
  | (throws) e where "co = CreateThrows e" "\<not> invalid_message (message req)"
      "Map_get (chatSessions s) (key_of req) = None"
      "fst (chat_begin s req co) = Inl (res_json 500
        [(''error'', JStr ''Failed to initialize AI model''),
         (''details'', JStr ''Please check API key and model configuration''),
         (''success'', JBool False)])"
  | (sent) p where "\<not> invalid_message (message req)"
      "co = CreateOk \<or> Map_get (chatSessions s) (key_of req) \<noteq> None"
      "fst (chat_begin s req co) = Inr p"
proof (cases "invalid_message (message req)")
  case True
  then show ?thesis using invalid by (simp add: chat_begin_def)
next
  case v: False
  show ?thesis
  proof (cases "Map_get (chatSessions s) (key_of req)")
    case (Some h)
    then show ?thesis using v sent by (simp add: chat_begin_present)
  next
    case None
    show ?thesis
    proof (cases co)
      case CreateOk
      then show ?thesis using v None sent by (simp add: chat_begin_created)
    next
      case (CreateThrows e)
      then show ?thesis using v None throws by (simp add: chat_begin_create_throws)
    qed
  qed
qed

lemma post_fst:
  "fst (post_api_chat node_env now s req co so) =
     (case fst (chat_begin s req co) of Inl r \<Rightarrow> r | Inr p \<Rightarrow> chat_resume node_env now p so)"
  by (simp add: post_api_chat_def split: prod.splits sum.splits)

lemma delete_api_chat_eq:
  "delete_api_chat s sid q =
     (\<lparr>status = 200, body = [(''message'', JStr ''Chat session cleared'')]\<rparr>,
      s\<lparr>chatSessions := Map_delete (delete_key_of q sid) (chatSessions s)\<rparr>)"
  by (simp add: delete_api_chat_def delete_key_of_def res_json_def Let_def)

text \<open>The definitions that evaluate a handler on a concrete request.\<close>

lemmas eval_defs =
  post_api_chat_def chat_begin_def chat_resume_def catch_error_def classify_def res_json_def
  send_to_def key_of_def sessionKey_def selectedUserType_def validUserTypes_def
  sessionId_or_default_def invalid_message_def trimmed_def trim_def isWhiteSpace_def
  initial_def Map_get_def instructions_def Let_def delete_api_chat_def Map_delete_def
  delete_key_of_def new_chat_def

subsection \<open>Failures of the send step\<close>

text \<open>
  Claim C4. When the send step of a valid request fails, the status of the response is
  read off the error's message: 408 when the handler's timer settled first or the message
  is exactly \<open>Request timeout\<close>, otherwise 401 when the message contains \<open>API key\<close>,
  otherwise 429 when it contains \<open>quota\<close>, otherwise 500; the \<open>error\<close> text of the body is
  the one that goes with the status. The tests are tried in this order, so each failure
  gets one status of the four.
\<close>

theorem send_failure_status:
  assumes "\<not> invalid_message (message req)"
      and "co = CreateOk \<or> Map_get (chatSessions s) (key_of req) \<noteq> None"
  shows "status (fst (post_api_chat node_env now s req co TimerFirst)) = 408 \<and>
         status (fst (post_api_chat node_env now s req co (SendRejects msg))) =
           (if msg = ''Request timeout'' then 408
            else if str_includes msg ''API key'' then 401
            else if str_includes msg ''quota'' then 429
            else 500) \<and>
         map_of (body (fst (post_api_chat node_env now s req co (SendRejects msg)))) ''error'' =
           Some (JStr
             (if msg = ''Request timeout'' then ''Request timed out. Please try again.''
              else if str_includes msg ''API key'' then ''Invalid API configuration''
              else if str_includes msg ''quota'' then ''API quota exceeded. Please try again later.''
              else ''Failed to process chat message''))"
proof -
  obtain p s1 where b: "chat_begin s req co = (Inr p, s1)"
  proof (cases "Map_get (chatSessions s) (key_of req)")
    case None
    with assms have "co = CreateOk" by simp
    with None assms(1) that show ?thesis by (simp add: chat_begin_created)
  next
    case (Some h)
    with assms(1) that show ?thesis by (simp add: chat_begin_present)
  qed
  show ?thesis
    by (simp add: post_api_chat_def b chat_resume_def catch_error_def classify_def res_json_def)
qed

theorem send_failure_status_witness:
  "\<not> invalid_message (message \<lparr>message = JStr ''How do I start a bakery?'', userType = JStr ''aspiring'', sessionId = Some ''s1''\<rparr>) \<and>
   status (fst (post_api_chat None ''t'' initial
      \<lparr>message = JStr ''How do I start a bakery?'', userType = JStr ''aspiring'', sessionId = Some ''s1''\<rparr>
      CreateOk TimerFirst)) = 408 \<and>
   status (fst (post_api_chat None ''t'' initial
      \<lparr>message = JStr ''How do I start a bakery?'', userType = JStr ''aspiring'', sessionId = Some ''s1''\<rparr>
      CreateOk (SendRejects ''API key not valid. Please pass a valid API key.''))) = 401 \<and>
   status (fst (post_api_chat None ''t'' initial
      \<lparr>message = JStr ''How do I start a bakery?'', userType = JStr ''aspiring'', sessionId = Some ''s1''\<rparr>
      CreateOk (SendRejects ''You exceeded your current quota''))) = 429 \<and>
   status (fst (post_api_chat None ''t'' initial
      \<lparr>message = JStr ''How do I start a bakery?'', userType = JStr ''aspiring'', sessionId = Some ''s1''\<rparr>
      CreateOk (SendRejects ''fetch failed''))) = 500"
  using send_failure_status [of "\<lparr>message = JStr ''How do I start a bakery?'', userType = JStr ''aspiring'', sessionId = Some ''s1''\<rparr>" CreateOk initial None "''t''" "''API key not valid. Please pass a valid API key.''"]
    send_failure_status [of "\<lparr>message = JStr ''How do I start a bakery?'', userType = JStr ''aspiring'', sessionId = Some ''s1''\<rparr>" CreateOk initial None "''t''" "''You exceeded your current quota''"]
    send_failure_status [of "\<lparr>message = JStr ''How do I start a bakery?'', userType = JStr ''aspiring'', sessionId = Some ''s1''\<rparr>" CreateOk initial None "''t''" "''fetch failed''"]
  by (simp add: valid_hello)

text \<open>
  Claim C5. A failure of the send step, the timer settling first included, evicts
  nothing: after the request the table holds under the request's key the chat the message
  was sent on; where the key had a chat before, it is that same chat and the whole table is
  as before; and a retry of the request is served by that chat.
\<close>

theorem send_failure_keeps_entry:
  assumes "\<not> invalid_message (message req)"
      and "co = CreateOk \<or> Map_get (chatSessions s) (key_of req) \<noteq> None"
      and "so = TimerFirst \<or> so = SendRejects msg"
  shows "\<exists>h. Map_get (chatSessions (snd (post_api_chat node_env now s req co so))) (key_of req) = Some h \<and>
              last (upstreamCalls (snd (post_api_chat node_env now s req co so))) =
                SendMessage (chatId h) (trimmed (message req)) \<and>
              (\<forall>h0. Map_get (chatSessions s) (key_of req) = Some h0 \<longrightarrow>
                    h = h0 \<and> chatSessions (snd (post_api_chat node_env now s req co so)) = chatSessions s) \<and>
              fst (chat_begin (snd (post_api_chat node_env now s req co so)) req co') =
                Inr \<lparr>p_chat = h, p_sessionKey = key_of req,
                     p_userType = selectedUserType (userType req),
                     p_sessionId = sessionId_or_default (sessionId req)\<rparr>"
proof (cases "Map_get (chatSessions s) (key_of req)")
  case None
  with assms have co: "co = CreateOk" by simp
  let ?h = "new_chat s (selectedUserType (userType req))"
  let ?s' = "snd (post_api_chat node_env now s req co so)"
  have get: "Map_get (chatSessions ?s') (key_of req) = Some ?h"
    by (simp add: post_state_begin co chat_begin_created [OF assms(1) None] Map_get_set)
  have "last (upstreamCalls ?s') = SendMessage (chatId ?h) (trimmed (message req))"
    by (simp add: post_state_begin co chat_begin_created [OF assms(1) None])
  moreover have "fst (chat_begin ?s' req co') =
      Inr \<lparr>p_chat = ?h, p_sessionKey = key_of req, p_userType = selectedUserType (userType req),
           p_sessionId = sessionId_or_default (sessionId req)\<rparr>"
    by (simp add: chat_begin_present [OF assms(1) get])
  ultimately show ?thesis using get None by auto
next
  case (Some h)
  let ?s' = "snd (post_api_chat node_env now s req co so)"
  have tbl: "chatSessions ?s' = chatSessions s"
    by (simp add: post_state_begin chat_begin_present [OF assms(1) Some])
  then have get: "Map_get (chatSessions ?s') (key_of req) = Some h" using Some by simp
  have "last (upstreamCalls ?s') = SendMessage (chatId h) (trimmed (message req))"
    by (simp add: post_state_begin chat_begin_present [OF assms(1) Some])
  moreover have "fst (chat_begin ?s' req co') =
      Inr \<lparr>p_chat = h, p_sessionKey = key_of req, p_userType = selectedUserType (userType req),
           p_sessionId = sessionId_or_default (sessionId req)\<rparr>"
    by (simp add: chat_begin_present [OF assms(1) get])
  ultimately show ?thesis using get tbl Some by auto
qed

theorem send_failure_keeps_entry_witness:
  "\<not> invalid_message (message \<lparr>message = JStr ''How do I start a bakery?'',
        userType = JStr ''aspiring'', sessionId = Some ''s1''\<rparr>) \<and>
   (CreateOk = CreateOk \<or> Map_get (chatSessions initial) ''aspiring_s1'' \<noteq> None) \<and>
   status (fst (post_api_chat None ''t'' initial
      \<lparr>message = JStr ''How do I start a bakery?'', userType = JStr ''aspiring'', sessionId = Some ''s1''\<rparr>
      CreateOk TimerFirst)) = 408 \<and>
   Map_get (chatSessions (snd (post_api_chat None ''t'' initial
      \<lparr>message = JStr ''How do I start a bakery?'', userType = JStr ''aspiring'', sessionId = Some ''s1''\<rparr>
      CreateOk TimerFirst))) ''aspiring_s1'' =
     Some \<lparr>chatId = 0, model = ''gemini-1.5-flash'', systemInstruction = Some instruction_aspiring,
           generationConfig = defaultGenerationConfig\<rparr> \<and>
   (\<exists>h. Map_get (chatSessions (snd (post_api_chat None ''t'' initial
      \<lparr>message = JStr ''How do I start a bakery?'', userType = JStr ''aspiring'', sessionId = Some ''s1''\<rparr>
      CreateOk TimerFirst))) ''aspiring_s1'' = Some h \<and>
      last (upstreamCalls (snd (post_api_chat None ''t'' initial
      \<lparr>message = JStr ''How do I start a bakery?'', userType = JStr ''aspiring'', sessionId = Some ''s1''\<rparr>
      CreateOk TimerFirst))) = SendMessage (chatId h) ''How do I start a bakery?'')"
  using send_failure_keeps_entry
    [of "\<lparr>message = JStr ''How do I start a bakery?'', userType = JStr ''aspiring'',
          sessionId = Some ''s1''\<rparr>" CreateOk initial TimerFirst "''x''" None "''t''" CreateOk]
  by (simp add: eval_defs)

subsection \<open>Creating and reusing a chat\<close>

text \<open>
  Claim C6. When the creation of the chat for a key that has none throws, the response is
  status 500 with the error \<open>Failed to initialize AI model\<close>, nothing is stored under the
  key, the table is as before, and no message is sent.
\<close>

theorem creation_failure_leaves_table:
  assumes "\<not> invalid_message (message req)"
      and "Map_get (chatSessions s) (key_of req) = None"
  shows "fst (post_api_chat node_env now s req (CreateThrows e) so) =
           res_json 500
             [(''error'', JStr ''Failed to initialize AI model''),
              (''details'', JStr ''Please check API key and model configuration''),
              (''success'', JBool False)] \<and>
         status (fst (post_api_chat node_env now s req (CreateThrows e) so)) = 500 \<and>
         chatSessions (snd (post_api_chat node_env now s req (CreateThrows e) so)) = chatSessions s \<and>
         Map_get (chatSessions (snd (post_api_chat node_env now s req (CreateThrows e) so))) (key_of req) = None \<and>
         created (snd (post_api_chat node_env now s req (CreateThrows e) so)) = created s \<and>
         upstreamCalls (snd (post_api_chat node_env now s req (CreateThrows e) so)) =
           upstreamCalls s @
             [StartChat ''gemini-1.5-flash'' (map_of instructions (selectedUserType (userType req)))
                defaultGenerationConfig]"
  using assms(2)
  by (simp add: post_api_chat_def chat_begin_create_throws [OF assms] res_json_def)

theorem creation_failure_leaves_table_witness:
  "\<not> invalid_message (message \<lparr>message = JStr ''How do I start a bakery?'',
        userType = JStr ''existing'', sessionId = None\<rparr>) \<and>
   Map_get (chatSessions initial)
     (key_of \<lparr>message = JStr ''How do I start a bakery?'', userType = JStr ''existing'',
              sessionId = None\<rparr>) = None \<and>
   post_api_chat (Some ''development'') ''t'' initial
      \<lparr>message = JStr ''How do I start a bakery?'', userType = JStr ''existing'', sessionId = None\<rparr>
      (CreateThrows ''model not found'') (SendResolves ''never sent'') =
     (\<lparr>status = 500,
       body = [(''error'', JStr ''Failed to initialize AI model''),
               (''details'', JStr ''Please check API key and model configuration''),
               (''success'', JBool False)]\<rparr>,
      \<lparr>chatSessions = [], created = 0,
       upstreamCalls = [StartChat ''gemini-1.5-flash'' (Some instruction_existing)
                          defaultGenerationConfig]\<rparr>)"
  using creation_failure_leaves_table
    [of "\<lparr>message = JStr ''How do I start a bakery?'', userType = JStr ''existing'',
          sessionId = None\<rparr>" initial "Some ''development''" "''t''" "''model not found''"
        "SendResolves ''never sent''"]
  by (simp add: eval_defs)

lemma Map_set_absent: "Map_get m k = None \<Longrightarrow> Map_set k v m = m @ [(k, v)]"
  by (induction m) (auto simp: Map_get_def split: if_splits)

lemma entries_for_set_other: "k' \<noteq> k \<Longrightarrow> entries_for k (Map_set k' v m) = entries_for k m"
  by (induction m) (auto simp: entries_for_def)

lemma entries_for_delete_other: "k' \<noteq> k \<Longrightarrow> entries_for k (Map_delete k' m) = entries_for k m"
  by (induction m) (auto simp: entries_for_def Map_delete_def)

lemma chat_begin_keeps:
  assumes "Map_get (chatSessions s) k = Some h"
  shows "Map_get (chatSessions (snd (chat_begin s req co))) k = Some h \<and>
         entries_for k (chatSessions (snd (chat_begin s req co))) = entries_for k (chatSessions s)"
proof (cases "\<not> invalid_message (message req) \<and> Map_get (chatSessions s) (key_of req) = None \<and> co = CreateOk")
  case True
  then have "key_of req \<noteq> k" using assms by auto
  then show ?thesis using True assms by (simp add: chat_begin_table Map_get_set entries_for_set_other)
next
  case False
  then have "chatSessions (snd (chat_begin s req co)) = chatSessions s"
    by (auto simp: chat_begin_table)
  then show ?thesis using assms by simp
qed

lemma serve_keeps:
  assumes "Map_get (chatSessions s) k = Some h" and "\<not> clears k r"
  shows "Map_get (chatSessions (serve node_env s r)) k = Some h \<and>
         entries_for k (chatSessions (serve node_env s r)) = entries_for k (chatSessions s)"
proof (cases r)
  case (Chat now req co so)
  then show ?thesis using chat_begin_keeps [OF assms(1)] by (simp add: post_state_begin)
next
  case (Clear sid q)
  then have "delete_key_of q sid \<noteq> k" using assms(2) by (simp add: delete_key_of_def sessionKey_def)
  then show ?thesis using Clear assms(1)
    by (simp add: delete_api_chat_eq Map_get_delete entries_for_delete_other)
qed

lemma serve_all_keeps:
  assumes "Map_get (chatSessions s) k = Some h" and "\<forall>r \<in> set rs. \<not> clears k r"
  shows "Map_get (chatSessions (serve_all node_env s rs)) k = Some h \<and>
         entries_for k (chatSessions (serve_all node_env s rs)) = entries_for k (chatSessions s)"
  using assms
proof (induction rs arbitrary: s)
  case Nil
  then show ?case by simp
next
  case (Cons r rs)
  from Cons.prems have nr: "\<not> clears k r" and rest: "\<forall>r \<in> set rs. \<not> clears k r" by simp_all
  have step: "Map_get (chatSessions (serve node_env s r)) k = Some h"
    and ent: "entries_for k (chatSessions (serve node_env s r)) = entries_for k (chatSessions s)"
    using serve_keeps [OF Cons.prems(1) nr] by simp_all
  show ?case using Cons.IH [OF step rest] ent by simp
qed

lemma selectedUserType_pinned:
  "c \<in> {''aspiring'', ''existing'', ''general''} \<Longrightarrow> selectedUserType (JStr c) = c"
  by (auto simp: selectedUserType_def validUserTypes_def)

lemma key_of_pinned:
  "c \<in> {''aspiring'', ''existing'', ''general''} \<Longrightarrow>
   key_of \<lparr>message = m, userType = JStr c, sessionId = Some sid\<rparr> = c @ ''_'' @ sid"
  by (simp add: key_of_def sessionKey_def selectedUserType_pinned sessionId_or_default_def)

lemma instructions_pinned:
  "c \<in> {''aspiring'', ''existing'', ''general''} \<Longrightarrow>
   map_of instructions c =
     Some (if c = ''aspiring'' then instruction_aspiring
           else if c = ''existing'' then instruction_existing else instruction_general)"
  by (auto simp: instructions_def)

text \<open>
  Claim C2. Take one of the three user types \<open>c\<close>, a session id \<open>sid\<close> and a state with no
  entry under \<open>c_sid\<close>. The first valid request with that user type and session id creates
  one chat, with the instruction the source gives for \<open>c\<close>, the model \<open>gemini-1.5-flash\<close> and
  the parameters 1500, 0.7, 0.8 and 40. When the handler suspends on the send of the message
  the table already holds that chat under \<open>c_sid\<close>, appended after the entries it had, and
  no other key has changed. After any further requests that do not delete \<open>c_sid\<close>, the key
  still holds that chat, and a valid request with the same user type and session id creates
  nothing: it leaves the table as it is and sends its message on that chat. The table holds
  one entry under the key throughout.
\<close>

theorem first_call_creates_then_reuses:
  assumes "c \<in> {''aspiring'', ''existing'', ''general''}"
      and "\<not> invalid_message m1" and "\<not> invalid_message m2"
      and "Map_get (chatSessions s) (c @ ''_'' @ sid) = None"
      and "\<forall>r \<in> set later. \<not> clears (c @ ''_'' @ sid) r"
  shows "let req1 = \<lparr>message = m1, userType = JStr c, sessionId = Some sid\<rparr>;
             req2 = \<lparr>message = m2, userType = JStr c, sessionId = Some sid\<rparr>;
             h = \<lparr>chatId = created s, model = ''gemini-1.5-flash'',
                  systemInstruction =
                    Some (if c = ''aspiring'' then instruction_aspiring
                          else if c = ''existing'' then instruction_existing
                          else instruction_general),
                  generationConfig =
                    \<lparr>maxOutputTokens = 1500, temperature = 7 / 10, topP = 8 / 10, topK = 40\<rparr>\<rparr>;
             s1 = snd (post_api_chat node_env now1 s req1 CreateOk so1);
             s' = serve_all node_env s1 later;
             s2 = snd (post_api_chat node_env now2 s' req2 co2 so2)
         in systemInstruction h = map_of instructions c \<and>
            chat_begin s req1 CreateOk =
              (Inr \<lparr>p_chat = h, p_sessionKey = c @ ''_'' @ sid, p_userType = c, p_sessionId = sid\<rparr>, s1) \<and>
            chatSessions s1 = chatSessions s @ [(c @ ''_'' @ sid, h)] \<and>
            Map_get (chatSessions s1) (c @ ''_'' @ sid) = Some h \<and>
            (\<forall>k. k \<noteq> c @ ''_'' @ sid \<longrightarrow>
                 Map_get (chatSessions s1) k = Map_get (chatSessions s) k) \<and>
            created s1 = Suc (created s) \<and>
            upstreamCalls s1 = upstreamCalls s @
              [StartChat ''gemini-1.5-flash'' (systemInstruction h) (generationConfig h),
               SendMessage (chatId h) (trimmed m1)] \<and>
            entries_for (c @ ''_'' @ sid) (chatSessions s1) = 1 \<and>
            Map_get (chatSessions s') (c @ ''_'' @ sid) = Some h \<and>
            entries_for (c @ ''_'' @ sid) (chatSessions s') = 1 \<and>
            chatSessions s2 = chatSessions s' \<and> created s2 = created s' \<and>
            upstreamCalls s2 = upstreamCalls s' @ [SendMessage (chatId h) (trimmed m2)] \<and>
            fst (chat_begin s' req2 co2) =
              Inr \<lparr>p_chat = h, p_sessionKey = c @ ''_'' @ sid, p_userType = c, p_sessionId = sid\<rparr> \<and>
            entries_for (c @ ''_'' @ sid) (chatSessions s2) = 1"
proof -
  define k where "k = c @ ''_'' @ sid"
  define req1 where "req1 = \<lparr>message = m1, userType = JStr c, sessionId = Some sid\<rparr>"
  define req2 where "req2 = \<lparr>message = m2, userType = JStr c, sessionId = Some sid\<rparr>"
  define h where "h = \<lparr>chatId = created s, model = ''gemini-1.5-flash'',
                  systemInstruction =
                    Some (if c = ''aspiring'' then instruction_aspiring
                          else if c = ''existing'' then instruction_existing
                          else instruction_general),
                  generationConfig =
                    \<lparr>maxOutputTokens = 1500, temperature = 7 / 10, topP = 8 / 10, topK = 40\<rparr>\<rparr>"
  define s1 where "s1 = snd (post_api_chat node_env now1 s req1 CreateOk so1)"
  define s' where "s' = serve_all node_env s1 later"
  define s2 where "s2 = snd (post_api_chat node_env now2 s' req2 co2 so2)"
  define stored where "stored = s\<lparr>upstreamCalls := upstreamCalls s @
                 [StartChat ''gemini-1.5-flash'' (map_of instructions c) defaultGenerationConfig],
               chatSessions := Map_set k h (chatSessions s),
               created := Suc (created s)\<rparr>"
  have k1: "key_of req1 = k" and k2: "key_of req2 = k"
    using assms(1) by (simp_all add: req1_def req2_def k_def key_of_pinned)
  have ut: "selectedUserType (userType req1) = c" "selectedUserType (userType req2) = c"
    using assms(1) by (simp_all add: req1_def req2_def selectedUserType_pinned)
  have sd: "sessionId_or_default (sessionId req1) = sid" "sessionId_or_default (sessionId req2) = sid"
    by (simp_all add: req1_def req2_def sessionId_or_default_def)
  have ms: "message req1 = m1" "message req2 = m2" by (simp_all add: req1_def req2_def)
  have ins: "systemInstruction h = map_of instructions c"
    by (simp only: h_def instructions_pinned [OF assms(1)] chat_session.simps)
  have cfg: "generationConfig h = defaultGenerationConfig"
    by (simp add: h_def defaultGenerationConfig_def)
  have id: "chatId h = created s" by (simp add: h_def)
  have nc: "new_chat s c = h"
    by (simp only: new_chat_def h_def defaultGenerationConfig_def instructions_pinned [OF assms(1)])
  have v1: "\<not> invalid_message (message req1)" and v2: "\<not> invalid_message (message req2)"
    using assms(2,3) by (simp_all add: ms)
  have absent: "Map_get (chatSessions s) k = None" using assms(4) by (simp add: k_def)
  have none: "Map_get (chatSessions s) (key_of req1) = None" using absent k1 by simp
  have b1: "chat_begin s req1 CreateOk =
      (Inr \<lparr>p_chat = h, p_sessionKey = k, p_userType = c, p_sessionId = sid\<rparr>,
       send_to stored h (trimmed m1))"
    using chat_begin_created [OF v1 none] unfolding k1 ut sd nc ms stored_def by simp
  have s1: "s1 = send_to stored h (trimmed m1)"
    by (simp add: s1_def post_state_begin b1)
  have t1: "chatSessions s1 = chatSessions s @ [(k, h)]"
    by (simp add: s1 stored_def Map_set_absent [OF absent])
  have g1: "Map_get (chatSessions s1) k = Some h"
    by (simp add: s1 stored_def Map_get_set)
  have fr: "\<forall>k'. k' \<noteq> k \<longrightarrow> Map_get (chatSessions s1) k' = Map_get (chatSessions s) k'"
    by (simp add: s1 stored_def Map_get_set)
  have e1: "entries_for k (chatSessions s1) = 1"
    by (simp add: s1 stored_def entries_for_set absent)
  have c1: "created s1 = Suc (created s)" by (simp add: s1 stored_def)
  have u1: "upstreamCalls s1 = upstreamCalls s @
              [StartChat ''gemini-1.5-flash'' (systemInstruction h) (generationConfig h),
               SendMessage (chatId h) (trimmed m1)]"
    by (simp add: s1 stored_def ins cfg)
  have later: "\<forall>r \<in> set later. \<not> clears k r" using assms(5) by (simp add: k_def)
  have g': "Map_get (chatSessions s') k = Some h" and e': "entries_for k (chatSessions s') = 1"
    using serve_all_keeps [OF g1 later, of node_env] e1 by (simp_all add: s'_def)
  have g'k: "Map_get (chatSessions s') (key_of req2) = Some h" using g' k2 by simp
  have b2: "chat_begin s' req2 co2 =
      (Inr \<lparr>p_chat = h, p_sessionKey = k, p_userType = c, p_sessionId = sid\<rparr>,
       send_to s' h (trimmed m2))"
    using chat_begin_present [OF v2 g'k, of co2] unfolding k2 ut sd ms by simp
  have s2: "s2 = send_to s' h (trimmed m2)"
    by (simp add: s2_def post_state_begin b2)
  have b1': "chat_begin s req1 CreateOk =
      (Inr \<lparr>p_chat = h, p_sessionKey = k, p_userType = c, p_sessionId = sid\<rparr>, s1)"
    using b1 s1 by simp
  have "systemInstruction h = map_of instructions c \<and>
            chat_begin s req1 CreateOk =
              (Inr \<lparr>p_chat = h, p_sessionKey = k, p_userType = c, p_sessionId = sid\<rparr>, s1) \<and>
            chatSessions s1 = chatSessions s @ [(k, h)] \<and>
            Map_get (chatSessions s1) k = Some h \<and>
            (\<forall>k'. k' \<noteq> k \<longrightarrow> Map_get (chatSessions s1) k' = Map_get (chatSessions s) k') \<and>
            created s1 = Suc (created s) \<and>
            upstreamCalls s1 = upstreamCalls s @
              [StartChat ''gemini-1.5-flash'' (systemInstruction h) (generationConfig h),
               SendMessage (chatId h) (trimmed m1)] \<and>
            entries_for k (chatSessions s1) = 1 \<and>
            Map_get (chatSessions s') k = Some h \<and>
            entries_for k (chatSessions s') = 1 \<and>
            chatSessions s2 = chatSessions s' \<and> created s2 = created s' \<and>
            upstreamCalls s2 = upstreamCalls s' @ [SendMessage (chatId h) (trimmed m2)] \<and>
            fst (chat_begin s' req2 co2) =
              Inr \<lparr>p_chat = h, p_sessionKey = k, p_userType = c, p_sessionId = sid\<rparr> \<and>
            entries_for k (chatSessions s2) = 1"
    using ins b1' t1 g1 fr c1 u1 e1 g' e' b2 by (simp add: s2)
  then show ?thesis
    unfolding Let_def s2_def s'_def s1_def h_def req1_def req2_def k_def .
qed

theorem first_call_creates_then_reuses_witness:
  "''existing'' \<in> {''aspiring'', ''existing'', ''general''} \<and>
   \<not> invalid_message (JStr ''How do I scale my bakery?'') \<and>
   \<not> invalid_message (JStr ''What about funding?'') \<and>
   Map_get (chatSessions initial) (''existing'' @ ''_'' @ ''s2'') = None \<and>
   \<not> clears (''existing'' @ ''_'' @ ''s2'')
        (Chat ''t2'' \<lparr>message = JStr ''Where do I start?'', userType = JUndefined,
                      sessionId = Some ''s2''\<rparr> CreateOk TimerFirst) \<and>
   \<not> clears (''existing'' @ ''_'' @ ''s2'') (Clear ''s2'' None) \<and>
   snd (post_api_chat None ''t4''
          (serve_all None
             (snd (post_api_chat None ''t1'' initial
                \<lparr>message = JStr ''How do I scale my bakery?'', userType = JStr ''existing'',
                 sessionId = Some ''s2''\<rparr> CreateOk (SendResolves ''Hire a baker.'')))
             [Chat ''t2'' \<lparr>message = JStr ''Where do I start?'', userType = JUndefined,
                           sessionId = Some ''s2''\<rparr> CreateOk TimerFirst,
              Clear ''s2'' None])
          \<lparr>message = JStr ''What about funding?'', userType = JStr ''existing'',
           sessionId = Some ''s2''\<rparr> CreateOk (SendRejects ''quota'')) =
     \<lparr>chatSessions =
        [(''existing_s2'',
          \<lparr>chatId = 0, model = ''gemini-1.5-flash'', systemInstruction = Some instruction_existing,
           generationConfig =
             \<lparr>maxOutputTokens = 1500, temperature = 7 / 10, topP = 8 / 10, topK = 40\<rparr>\<rparr>),
         (''general_s2'',
          \<lparr>chatId = 1, model = ''gemini-1.5-flash'', systemInstruction = Some instruction_general,
           generationConfig =
             \<lparr>maxOutputTokens = 1500, temperature = 7 / 10, topP = 8 / 10, topK = 40\<rparr>\<rparr>)],
      created = 2,
      upstreamCalls =
        [StartChat ''gemini-1.5-flash'' (Some instruction_existing)
           \<lparr>maxOutputTokens = 1500, temperature = 7 / 10, topP = 8 / 10, topK = 40\<rparr>,
         SendMessage 0 ''How do I scale my bakery?'',
         StartChat ''gemini-1.5-flash'' (Some instruction_general)
           \<lparr>maxOutputTokens = 1500, temperature = 7 / 10, topP = 8 / 10, topK = 40\<rparr>,
         SendMessage 1 ''Where do I start?'',
         SendMessage 0 ''What about funding?'']\<rparr> \<and>
   entries_for (''existing'' @ ''_'' @ ''s2'') (chatSessions (snd (post_api_chat None ''t4''
            (serve_all None
               (snd (post_api_chat None ''t1'' initial
                  \<lparr>message = JStr ''How do I scale my bakery?'', userType = JStr ''existing'',
                   sessionId = Some ''s2''\<rparr> CreateOk (SendResolves ''Hire a baker.'')))
               [Chat ''t2'' \<lparr>message = JStr ''Where do I start?'', userType = JUndefined,
                             sessionId = Some ''s2''\<rparr> CreateOk TimerFirst,
                Clear ''s2'' None])
            \<lparr>message = JStr ''What about funding?'', userType = JStr ''existing'',
             sessionId = Some ''s2''\<rparr> CreateOk (SendRejects ''quota'')))) = 1"
proof -
  have c: "''existing'' \<in> {''aspiring'', ''existing'', ''general''}" by simp
  have v1: "\<not> invalid_message (JStr ''How do I scale my bakery?'')"
    by (simp add: invalid_message_def trim_def isWhiteSpace_def)
  have v2: "\<not> invalid_message (JStr ''What about funding?'')"
    by (simp add: invalid_message_def trim_def isWhiteSpace_def)
  have absent: "Map_get (chatSessions initial) (''existing'' @ ''_'' @ ''s2'') = None"
    by (simp add: initial_def Map_get_def)
  have n1: "\<not> clears (''existing'' @ ''_'' @ ''s2'')
        (Chat ''t2'' \<lparr>message = JStr ''Where do I start?'', userType = JUndefined,
                      sessionId = Some ''s2''\<rparr> CreateOk TimerFirst)"
    by simp
  have n2: "\<not> clears (''existing'' @ ''_'' @ ''s2'') (Clear ''s2'' None)" by simp
  have later: "\<forall>r \<in> set [Chat ''t2'' \<lparr>message = JStr ''Where do I start?'', userType = JUndefined,
                           sessionId = Some ''s2''\<rparr> CreateOk TimerFirst,
              Clear ''s2'' None]. \<not> clears (''existing'' @ ''_'' @ ''s2'') r"
    using n1 n2 by simp
  have ev: "snd (post_api_chat None ''t4''
          (serve_all None
             (snd (post_api_chat None ''t1'' initial
                \<lparr>message = JStr ''How do I scale my bakery?'', userType = JStr ''existing'',
                 sessionId = Some ''s2''\<rparr> CreateOk (SendResolves ''Hire a baker.'')))
             [Chat ''t2'' \<lparr>message = JStr ''Where do I start?'', userType = JUndefined,
                           sessionId = Some ''s2''\<rparr> CreateOk TimerFirst,
              Clear ''s2'' None])
          \<lparr>message = JStr ''What about funding?'', userType = JStr ''existing'',
           sessionId = Some ''s2''\<rparr> CreateOk (SendRejects ''quota'')) =
     \<lparr>chatSessions =
        [(''existing_s2'',
          \<lparr>chatId = 0, model = ''gemini-1.5-flash'', systemInstruction = Some instruction_existing,
           generationConfig =
             \<lparr>maxOutputTokens = 1500, temperature = 7 / 10, topP = 8 / 10, topK = 40\<rparr>\<rparr>),
         (''general_s2'',
          \<lparr>chatId = 1, model = ''gemini-1.5-flash'', systemInstruction = Some instruction_general,
           generationConfig =
             \<lparr>maxOutputTokens = 1500, temperature = 7 / 10, topP = 8 / 10, topK = 40\<rparr>\<rparr>)],
      created = 2,
      upstreamCalls =
        [StartChat ''gemini-1.5-flash'' (Some instruction_existing)
           \<lparr>maxOutputTokens = 1500, temperature = 7 / 10, topP = 8 / 10, topK = 40\<rparr>,
         SendMessage 0 ''How do I scale my bakery?'',
         StartChat ''gemini-1.5-flash'' (Some instruction_general)
           \<lparr>maxOutputTokens = 1500, temperature = 7 / 10, topP = 8 / 10, topK = 40\<rparr>,
         SendMessage 1 ''Where do I start?'',
         SendMessage 0 ''What about funding?'']\<rparr>"
    by (simp add: eval_defs defaultGenerationConfig_def)
  have one: "entries_for (''existing'' @ ''_'' @ ''s2'') (chatSessions (snd (post_api_chat None ''t4''
            (serve_all None
               (snd (post_api_chat None ''t1'' initial
                  \<lparr>message = JStr ''How do I scale my bakery?'', userType = JStr ''existing'',
                   sessionId = Some ''s2''\<rparr> CreateOk (SendResolves ''Hire a baker.'')))
               [Chat ''t2'' \<lparr>message = JStr ''Where do I start?'', userType = JUndefined,
                             sessionId = Some ''s2''\<rparr> CreateOk TimerFirst,
                Clear ''s2'' None])
            \<lparr>message = JStr ''What about funding?'', userType = JStr ''existing'',
             sessionId = Some ''s2''\<rparr> CreateOk (SendRejects ''quota'')))) = 1"
    using first_call_creates_then_reuses [OF c v1 v2 absent later,
        of None "''t1''" "SendResolves ''Hire a baker.''" "''t4''" CreateOk "SendRejects ''quota''"]
    unfolding Let_def by blast
  show ?thesis using c v1 v2 absent n1 n2 ev one by blast
qed

subsection \<open>Clearing a session\<close>

lemma Map_delete_twice: "Map_delete k (Map_delete k m) = Map_delete k m"
  by (simp add: Map_delete_def)

text \<open>
  Claim C7, as stated, has the response body carry the session id beside the message.
  The body the handler sends holds the message alone.
\<close>

theorem delete_body_counterexample:
  "body (fst (delete_api_chat
      (snd (post_api_chat None ''t'' initial
         \<lparr>message = JStr ''How do I start a bakery?'', userType = JStr ''aspiring'',
          sessionId = Some ''s1''\<rparr> CreateOk (SendResolves ''Write a plan.'')))
      ''s1'' (Some ''aspiring''))) = [(''message'', JStr ''Chat session cleared'')] \<and>
   map_of (body (fst (delete_api_chat
      (snd (post_api_chat None ''t'' initial
         \<lparr>message = JStr ''How do I start a bakery?'', userType = JStr ''aspiring'',
          sessionId = Some ''s1''\<rparr> CreateOk (SendResolves ''Write a plan.'')))
      ''s1'' (Some ''aspiring'')))) ''sessionId'' = None"
  by (simp add: delete_api_chat_eq)

text \<open>
  Claim C7, amended. Every delete request is answered with status 200 and the body
  \<open>{message: 'Chat session cleared'}\<close>, whether the computed key has an entry or not.
  Afterwards the key has no entry and every other key is as before; where the key had no
  entry the state is unchanged; and a second delete changes nothing more.
\<close>

theorem delete_always_succeeds:
  "fst (delete_api_chat s sid q) =
     \<lparr>status = 200, body = [(''message'', JStr ''Chat session cleared'')]\<rparr> \<and>
   Map_get (chatSessions (snd (delete_api_chat s sid q))) (delete_key_of q sid) = None \<and>
   (\<forall>k. k \<noteq> delete_key_of q sid \<longrightarrow>
      Map_get (chatSessions (snd (delete_api_chat s sid q))) k = Map_get (chatSessions s) k) \<and>
   (Map_get (chatSessions s) (delete_key_of q sid) = None \<longrightarrow> snd (delete_api_chat s sid q) = s) \<and>
   created (snd (delete_api_chat s sid q)) = created s \<and>
   upstreamCalls (snd (delete_api_chat s sid q)) = upstreamCalls s \<and>
   delete_api_chat (snd (delete_api_chat s sid q)) sid q = delete_api_chat s sid q"
  by (simp add: delete_api_chat_eq Map_get_delete Map_delete_absent Map_delete_twice)

theorem delete_always_succeeds_witness:
  "delete_api_chat
      (snd (post_api_chat None ''t'' initial
         \<lparr>message = JStr ''How do I start a bakery?'', userType = JStr ''aspiring'',
          sessionId = Some ''s1''\<rparr> CreateOk (SendResolves ''Write a plan.'')))
      ''s1'' (Some ''aspiring'') =
     (\<lparr>status = 200, body = [(''message'', JStr ''Chat session cleared'')]\<rparr>,
      \<lparr>chatSessions = [], created = 1,
       upstreamCalls = [StartChat ''gemini-1.5-flash'' (Some instruction_aspiring) defaultGenerationConfig,
                        SendMessage 0 ''How do I start a bakery?'']\<rparr>) \<and>
   Map_get (chatSessions initial) (delete_key_of (Some ''aspiring'') ''s1'') = None \<and>
   snd (delete_api_chat initial ''s1'' (Some ''aspiring'')) = initial \<and>
   fst (delete_api_chat initial ''s1'' (Some ''aspiring'')) =
     \<lparr>status = 200, body = [(''message'', JStr ''Chat session cleared'')]\<rparr>"
  using delete_always_succeeds [of initial "''s1''" "Some ''aspiring''"]
    delete_always_succeeds
      [of "snd (post_api_chat None ''t'' initial
         \<lparr>message = JStr ''How do I start a bakery?'', userType = JStr ''aspiring'',
          sessionId = Some ''s1''\<rparr> CreateOk (SendResolves ''Write a plan.''))"
        "''s1''" "Some ''aspiring''"]
  by (simp add: eval_defs)

text \<open>
  Claim C10. The delete handler removes the entry under the raw \<open>userType\<close> of the query,
  or \<open>aspiring\<close> when there is none, followed by \<open>_\<close> and the session id; it removes nothing
  else. The chat handler, given the same user type and session id, stores under that user
  type only when it is one of the three, and under \<open>general\<close> when it is absent or anything
  else. So a delete that follows a chat request with the same user type and session id
  removes the entry the chat request stored exactly when the user type is given and is one
  of the three; in every other case that entry stays.
\<close>

theorem delete_key_is_raw:
  "chatSessions (snd (delete_api_chat s sid q)) =
     Map_delete ((case q of None \<Rightarrow> ''aspiring'' | Some u \<Rightarrow> u) @ ''_'' @ sid) (chatSessions s) \<and>
   Map_get (chatSessions (snd (delete_api_chat s sid q)))
     ((case q of None \<Rightarrow> ''aspiring'' | Some u \<Rightarrow> u) @ ''_'' @ sid) = None \<and>
   (\<forall>k. k \<noteq> (case q of None \<Rightarrow> ''aspiring'' | Some u \<Rightarrow> u) @ ''_'' @ sid \<longrightarrow>
        Map_get (chatSessions (snd (delete_api_chat s sid q))) k = Map_get (chatSessions s) k) \<and>
   (\<not> invalid_message m \<longrightarrow>
      (let posted = snd (post_api_chat node_env now s
                      \<lparr>message = m,
                       userType = (case q of None \<Rightarrow> JUndefined | Some u \<Rightarrow> JStr u),
                       sessionId = Some sid\<rparr> CreateOk so);
           pkey = (case q of None \<Rightarrow> ''general''
                   | Some u \<Rightarrow> if u \<in> {''aspiring'', ''existing'', ''general''} then u
                              else ''general'') @ ''_'' @ sid
       in Map_get (chatSessions posted) pkey \<noteq> None \<and>
          (\<forall>k. k \<noteq> pkey \<longrightarrow> Map_get (chatSessions posted) k = Map_get (chatSessions s) k) \<and>
          Map_get (chatSessions (snd (delete_api_chat posted sid q))) pkey =
            (if q \<in> {Some ''aspiring'', Some ''existing'', Some ''general''} then None
             else Map_get (chatSessions posted) pkey)))"
proof -
  define dkey where "dkey = (case q of None \<Rightarrow> ''aspiring'' | Some u \<Rightarrow> u) @ ''_'' @ sid"
  define pkey where "pkey = (case q of None \<Rightarrow> ''general''
                   | Some u \<Rightarrow> if u \<in> {''aspiring'', ''existing'', ''general''} then u
                              else ''general'') @ ''_'' @ sid"
  define req where "req = \<lparr>message = m,
                       userType = (case q of None \<Rightarrow> JUndefined | Some u \<Rightarrow> JStr u),
                       sessionId = Some sid\<rparr>"
  define posted where "posted = snd (post_api_chat node_env now s req CreateOk so)"
  have dk: "delete_key_of q' sid = (case q' of None \<Rightarrow> ''aspiring'' | Some u \<Rightarrow> u) @ ''_'' @ sid" for q'
    by (simp add: delete_key_of_def sessionKey_def)
  have A: "chatSessions (snd (delete_api_chat t sid q)) = Map_delete dkey (chatSessions t)" for t
    by (simp add: delete_api_chat_eq dk dkey_def)
  have pk: "key_of req = pkey"
    by (cases q) (auto simp: req_def pkey_def key_of_def sessionKey_def selectedUserType_def
        validUserTypes_def sessionId_or_default_def)
  have agree: "dkey = pkey \<longleftrightarrow> q \<in> {Some ''aspiring'', Some ''existing'', Some ''general''}"
    by (cases q) (auto simp: dkey_def pkey_def)
  have P: "Map_get (chatSessions posted) pkey \<noteq> None \<and>
          (\<forall>k. k \<noteq> pkey \<longrightarrow> Map_get (chatSessions posted) k = Map_get (chatSessions s) k) \<and>
          Map_get (chatSessions (snd (delete_api_chat posted sid q))) pkey =
            (if q \<in> {Some ''aspiring'', Some ''existing'', Some ''general''} then None
             else Map_get (chatSessions posted) pkey)"
    if v: "\<not> invalid_message m"
  proof -
    have v': "\<not> invalid_message (message req)" using v by (simp add: req_def)
    have st: "Map_get (chatSessions posted) pkey \<noteq> None"
      using chat_begin_stores [OF v', of CreateOk s] by (simp add: posted_def post_state_begin pk)
    have fr: "\<forall>k. k \<noteq> pkey \<longrightarrow> Map_get (chatSessions posted) k = Map_get (chatSessions s) k"
      by (simp add: posted_def post_state_begin chat_begin_table pk Map_get_set)
    have "Map_get (chatSessions (snd (delete_api_chat posted sid q))) pkey =
            (if q \<in> {Some ''aspiring'', Some ''existing'', Some ''general''} then None
             else Map_get (chatSessions posted) pkey)"
      unfolding A using agree by (auto simp: Map_get_delete)
    with st fr show ?thesis by blast
  qed
  have "chatSessions (snd (delete_api_chat s sid q)) = Map_delete dkey (chatSessions s) \<and>
   Map_get (chatSessions (snd (delete_api_chat s sid q))) dkey = None \<and>
   (\<forall>k. k \<noteq> dkey \<longrightarrow>
        Map_get (chatSessions (snd (delete_api_chat s sid q))) k = Map_get (chatSessions s) k) \<and>
   (\<not> invalid_message m \<longrightarrow>
      Map_get (chatSessions posted) pkey \<noteq> None \<and>
          (\<forall>k. k \<noteq> pkey \<longrightarrow> Map_get (chatSessions posted) k = Map_get (chatSessions s) k) \<and>
          Map_get (chatSessions (snd (delete_api_chat posted sid q))) pkey =
            (if q \<in> {Some ''aspiring'', Some ''existing'', Some ''general''} then None
             else Map_get (chatSessions posted) pkey))"
    using P by (simp add: A Map_get_delete)
  then show ?thesis
    unfolding Let_def posted_def req_def pkey_def dkey_def .
qed

theorem delete_key_is_raw_witness:
  "\<not> invalid_message (JStr ''How do I start a bakery?'') \<and>
   chatSessions (snd (delete_api_chat
       (snd (post_api_chat None ''t'' initial
          \<lparr>message = JStr ''How do I start a bakery?'', userType = JUndefined,
           sessionId = Some ''s1''\<rparr> CreateOk (SendResolves ''Write a plan.'')))
       ''s1'' None)) =
     [(''general_s1'',
       \<lparr>chatId = 0, model = ''gemini-1.5-flash'', systemInstruction = Some instruction_general,
        generationConfig = defaultGenerationConfig\<rparr>)] \<and>
   chatSessions (snd (delete_api_chat
       (snd (post_api_chat None ''t'' initial
          \<lparr>message = JStr ''How do I start a bakery?'', userType = JStr ''investor'',
           sessionId = Some ''s1''\<rparr> CreateOk (SendResolves ''Write a plan.'')))
       ''s1'' (Some ''investor''))) =
     [(''general_s1'',
       \<lparr>chatId = 0, model = ''gemini-1.5-flash'', systemInstruction = Some instruction_general,
        generationConfig = defaultGenerationConfig\<rparr>)] \<and>
   chatSessions (snd (delete_api_chat
       (snd (post_api_chat None ''t'' initial
          \<lparr>message = JStr ''How do I start a bakery?'', userType = JStr ''existing'',
           sessionId = Some ''s1''\<rparr> CreateOk (SendResolves ''Write a plan.'')))
       ''s1'' (Some ''existing''))) = [] \<and>
   chatSessions (snd (delete_api_chat
       (snd (post_api_chat None ''t'' initial
          \<lparr>message = JStr ''How do I start a bakery?'', userType = JStr ''aspiring'',
           sessionId = Some ''s1''\<rparr> CreateOk (SendResolves ''Write a plan.'')))
       ''s1'' None)) = [] \<and>
   Map_get (chatSessions (snd (delete_api_chat initial ''s1'' (Some ''investor''))))
     ((case Some ''investor'' of None \<Rightarrow> ''aspiring'' | Some u \<Rightarrow> u) @ ''_'' @ ''s1'') = None"
proof -
  have v: "\<not> invalid_message (JStr ''How do I start a bakery?'')"
    by (simp add: invalid_message_def trim_def isWhiteSpace_def)
  have ev: "chatSessions (snd (delete_api_chat
       (snd (post_api_chat None ''t'' initial
          \<lparr>message = JStr ''How do I start a bakery?'', userType = JUndefined,
           sessionId = Some ''s1''\<rparr> CreateOk (SendResolves ''Write a plan.'')))
       ''s1'' None)) =
     [(''general_s1'',
       \<lparr>chatId = 0, model = ''gemini-1.5-flash'', systemInstruction = Some instruction_general,
        generationConfig = defaultGenerationConfig\<rparr>)] \<and>
   chatSessions (snd (delete_api_chat
       (snd (post_api_chat None ''t'' initial
          \<lparr>message = JStr ''How do I start a bakery?'', userType = JStr ''investor'',
           sessionId = Some ''s1''\<rparr> CreateOk (SendResolves ''Write a plan.'')))
       ''s1'' (Some ''investor''))) =
     [(''general_s1'',
       \<lparr>chatId = 0, model = ''gemini-1.5-flash'', systemInstruction = Some instruction_general,
        generationConfig = defaultGenerationConfig\<rparr>)] \<and>
   chatSessions (snd (delete_api_chat
       (snd (post_api_chat None ''t'' initial
          \<lparr>message = JStr ''How do I start a bakery?'', userType = JStr ''existing'',
           sessionId = Some ''s1''\<rparr> CreateOk (SendResolves ''Write a plan.'')))
       ''s1'' (Some ''existing''))) = [] \<and>
   chatSessions (snd (delete_api_chat
       (snd (post_api_chat None ''t'' initial
          \<lparr>message = JStr ''How do I start a bakery?'', userType = JStr ''aspiring'',
           sessionId = Some ''s1''\<rparr> CreateOk (SendResolves ''Write a plan.'')))
       ''s1'' None)) = []"
    by (simp add: eval_defs)
  have raw: "Map_get (chatSessions (snd (delete_api_chat initial ''s1'' (Some ''investor''))))
     ((case Some ''investor'' of None \<Rightarrow> ''aspiring'' | Some u \<Rightarrow> u) @ ''_'' @ ''s1'') = None"
    using delete_key_is_raw [of initial "''s1''" "Some ''investor''" "JStr ''How do I start a bakery?''"
        None "''t''" "SendResolves ''Write a plan.''"]
    by blast
  show ?thesis using v ev raw by blast
qed

subsection \<open>The details field\<close>

lemma details_catch_error:
  "map_of (body (catch_error node_env now msg)) ''details'' =
     (if node_env = Some ''development'' then Some (JStr msg) else None)"
  by (simp add: catch_error_def res_json_def classify_def)

lemma details_chat_resume:
  "map_of (body (chat_resume node_env now p so)) ''details'' =
     (case so of
        SendResolves reply \<Rightarrow> None
      | SendRejects msg \<Rightarrow> if node_env = Some ''development'' then Some (JStr msg) else None
      | TimerFirst \<Rightarrow> if node_env = Some ''development'' then Some (JStr ''Request timeout'') else None)"
  by (cases so) (simp_all add: chat_resume_def details_catch_error, simp add: res_json_def)

text \<open>
  Claim C8, as stated, has every failure response suppress the details field outside a
  non-production configuration. The response to a failed creation carries a details field
  under \<open>NODE_ENV=production\<close>.
\<close>

theorem details_in_production_counterexample:
  "map_of (body (fst (post_api_chat (Some ''production'') ''t'' initial
      \<lparr>message = JStr ''How do I start a bakery?'', userType = JStr ''aspiring'',
       sessionId = Some ''s1''\<rparr> (CreateThrows ''model not found'') TimerFirst))) ''details'' =
     Some (JStr ''Please check API key and model configuration'')"
  by (simp add: eval_defs)

text \<open>
  Claim C8, amended. A response carries a details field in two cases only: the response
  to a failed creation, whose details are the fixed text
  \<open>Please check API key and model configuration\<close> in every configuration, and the response
  to a failed send when \<open>NODE_ENV\<close> is \<open>development\<close>, whose details are the error's
  message. In any other configuration a failed send has no details field, and the response
  depends on the error's message only through its classification. The message of a
  creation error reaches no response.
\<close>

theorem details_only_in_development:
  "(\<forall>d. map_of (body (fst (post_api_chat node_env now s req co so))) ''details'' = Some d \<longrightarrow>
        (d = JStr ''Please check API key and model configuration'' \<and>
         status (fst (post_api_chat node_env now s req co so)) = 500 \<and>
         \<not> invalid_message (message req) \<and>
         Map_get (chatSessions s) (key_of req) = None \<and> (\<exists>e. co = CreateThrows e)) \<or>
        (node_env = Some ''development'' \<and> \<not> invalid_message (message req) \<and>
         (co = CreateOk \<or> Map_get (chatSessions s) (key_of req) \<noteq> None) \<and>
         (\<exists>msg. (so = SendRejects msg \<or> so = TimerFirst \<and> msg = ''Request timeout'') \<and>
                d = JStr msg))) \<and>
   (node_env \<noteq> Some ''development'' \<and> \<not> invalid_message (message req) \<and>
    (co = CreateOk \<or> Map_get (chatSessions s) (key_of req) \<noteq> None) \<longrightarrow>
      map_of (body (fst (post_api_chat node_env now s req co so))) ''details'' = None) \<and>
   (node_env = Some ''development'' \<and> \<not> invalid_message (message req) \<and>
    (co = CreateOk \<or> Map_get (chatSessions s) (key_of req) \<noteq> None) \<longrightarrow>
      map_of (body (fst (post_api_chat node_env now s req co (SendRejects msg)))) ''details'' =
        Some (JStr msg)) \<and>
   fst (post_api_chat node_env now s req (CreateThrows e1) so) =
     fst (post_api_chat node_env now s req (CreateThrows e2) so) \<and>
   (node_env \<noteq> Some ''development'' \<and> classify m1 = classify m2 \<longrightarrow>
      fst (post_api_chat node_env now s req co (SendRejects m1)) =
      fst (post_api_chat node_env now s req co (SendRejects m2)))"
proof -
  have A: "(d = JStr ''Please check API key and model configuration'' \<and>
         status (fst (post_api_chat node_env now s req co so)) = 500 \<and>
         \<not> invalid_message (message req) \<and>
         Map_get (chatSessions s) (key_of req) = None \<and> (\<exists>e. co = CreateThrows e)) \<or>
        (node_env = Some ''development'' \<and> \<not> invalid_message (message req) \<and>
         (co = CreateOk \<or> Map_get (chatSessions s) (key_of req) \<noteq> None) \<and>
         (\<exists>msg. (so = SendRejects msg \<or> so = TimerFirst \<and> msg = ''Request timeout'') \<and>
                d = JStr msg))"
    if d: "map_of (body (fst (post_api_chat node_env now s req co so))) ''details'' = Some d" for d
  proof (cases rule: chat_begin_cases [of req s co])
    case invalid
    with d show ?thesis by (simp add: post_fst res_json_def)
  next
    case (throws e)
    with d show ?thesis by (simp add: post_fst res_json_def)
  next
    case (sent p)
    with d show ?thesis
      by (cases so) (auto simp: post_fst details_chat_resume split: if_splits)
  qed
  have B: "map_of (body (fst (post_api_chat node_env now s req co so))) ''details'' = None"
    if "node_env \<noteq> Some ''development''" "\<not> invalid_message (message req)"
       "co = CreateOk \<or> Map_get (chatSessions s) (key_of req) \<noteq> None"
  proof (cases rule: chat_begin_cases [of req s co])
    case invalid
    with that show ?thesis by simp
  next
    case (throws e)
    with that show ?thesis by simp
  next
    case (sent p)
    with that show ?thesis by (cases so) (simp_all add: post_fst details_chat_resume)
  qed
  have C: "map_of (body (fst (post_api_chat node_env now s req co (SendRejects msg)))) ''details'' =
        Some (JStr msg)"
    if "node_env = Some ''development''" "\<not> invalid_message (message req)"
       "co = CreateOk \<or> Map_get (chatSessions s) (key_of req) \<noteq> None"
  proof (cases rule: chat_begin_cases [of req s co])
    case invalid
    with that show ?thesis by simp
  next
    case (throws e)
    with that show ?thesis by simp
  next
    case (sent p)
    with that show ?thesis by (simp add: post_fst details_chat_resume)
  qed
  have D: "fst (post_api_chat node_env now s req (CreateThrows e1) so) =
     fst (post_api_chat node_env now s req (CreateThrows e2) so)"
  proof (cases "invalid_message (message req)")
    case True
    then show ?thesis by (simp add: post_fst chat_begin_def)
  next
    case v: False
    show ?thesis
    proof (cases "Map_get (chatSessions s) (key_of req)")
      case (Some h)
      then show ?thesis using v by (simp add: post_fst chat_begin_present)
    next
      case None
      then show ?thesis using v by (simp add: post_fst chat_begin_create_throws)
    qed
  qed
  have E: "fst (post_api_chat node_env now s req co (SendRejects m1)) =
      fst (post_api_chat node_env now s req co (SendRejects m2))"
    if "node_env \<noteq> Some ''development''" "classify m1 = classify m2"
    using that
    by (cases "fst (chat_begin s req co)") (simp_all add: post_fst chat_resume_def catch_error_def)
  show ?thesis using A B C D E by blast
qed

theorem details_only_in_development_witness:
  "map_of (body (fst (post_api_chat (Some ''development'') ''t'' initial
      \<lparr>message = JStr ''How do I start a bakery?'', userType = JStr ''aspiring'',
       sessionId = Some ''s1''\<rparr> CreateOk (SendRejects ''fetch failed: ECONNRESET'')))) ''details'' =
     Some (JStr ''fetch failed: ECONNRESET'') \<and>
   map_of (body (fst (post_api_chat (Some ''production'') ''t'' initial
      \<lparr>message = JStr ''How do I start a bakery?'', userType = JStr ''aspiring'',
       sessionId = Some ''s1''\<rparr> CreateOk (SendRejects ''fetch failed: ECONNRESET'')))) ''details'' = None \<and>
   map_of (body (fst (post_api_chat None ''t'' initial
      \<lparr>message = JStr ''How do I start a bakery?'', userType = JStr ''aspiring'',
       sessionId = Some ''s1''\<rparr> CreateOk (SendRejects ''fetch failed: ECONNRESET'')))) ''details'' = None \<and>
   Some ''production'' \<noteq> Some ''development'' \<and>
   \<not> invalid_message (JStr ''How do I start a bakery?'') \<and>
   classify ''fetch failed: ECONNRESET'' = classify ''socket hang up'' \<and>
   fst (post_api_chat (Some ''production'') ''t'' initial
      \<lparr>message = JStr ''How do I start a bakery?'', userType = JStr ''aspiring'',
       sessionId = Some ''s1''\<rparr> CreateOk (SendRejects ''fetch failed: ECONNRESET'')) =
   fst (post_api_chat (Some ''production'') ''t'' initial
      \<lparr>message = JStr ''How do I start a bakery?'', userType = JStr ''aspiring'',
       sessionId = Some ''s1''\<rparr> CreateOk (SendRejects ''socket hang up''))"
  using details_only_in_development
    [of "Some ''production''" "''t''" initial
        "\<lparr>message = JStr ''How do I start a bakery?'', userType = JStr ''aspiring'',
          sessionId = Some ''s1''\<rparr>" CreateOk "SendRejects ''fetch failed: ECONNRESET''"
        "''fetch failed: ECONNRESET''" "''e1''" "''e2''" "''fetch failed: ECONNRESET''" "''socket hang up''"]
    details_only_in_development
    [of "Some ''development''" "''t''" initial
        "\<lparr>message = JStr ''How do I start a bakery?'', userType = JStr ''aspiring'',
          sessionId = Some ''s1''\<rparr>" CreateOk "SendRejects ''fetch failed: ECONNRESET''"
        "''fetch failed: ECONNRESET''" "''e1''" "''e2''" "''fetch failed: ECONNRESET''" "''socket hang up''"]
  by (simp add: eval_defs)

subsection \<open>Listing the sessions\<close>

lemma key_of_form: "\<exists>ut sid. ut \<in> set validUserTypes \<and> key_of req = ut @ ''_'' @ sid"
  using selectedUserType_valid [of "userType req"] by (auto simp: key_of_def sessionKey_def)

lemma reachable_keys:
  assumes "reachable s"
  shows "distinct (Map_keys (chatSessions s)) \<and>
         (\<forall>k \<in> set (Map_keys (chatSessions s)).
            \<exists>ut sid. ut \<in> set validUserTypes \<and> k = ut @ ''_'' @ sid)"
  using assms
proof (induction rule: reachable.induct)
  case reachable_initial
  then show ?case by (simp add: initial_def Map_keys_def)
next
  case (reachable_chat s req co)
  then show ?case
    using key_of_form [of req]
    by (auto simp: chat_begin_table distinct_Map_set Map_keys_set)
next
  case (reachable_delete s sid q)
  then show ?case
    by (auto simp: delete_api_chat_eq distinct_Map_delete Map_keys_delete)
qed

text \<open>
  Claim C1. In every state the server reaches, \<open>listActiveSessions\<close> answers with
  status 200, the keys the table holds at that moment and their number, and leaves the state
  as it is. The keys are distinct, they are exactly the keys that have an entry, and each
  is a user type, \<open>_\<close> and a session id. The response is the same for any two tables with
  the same keys: nothing of the chats is in it.
\<close>

theorem listActiveSessions_snapshot:
  assumes "reachable s"
  shows "snd (listActiveSessions now s) = s \<and>
         fst (listActiveSessions now s) =
           \<lparr>status = 200,
            body = [(''activeSessions'', JNum (int (length (Map_keys (chatSessions s))))),
                    (''sessions'', JArr (map JStr (Map_keys (chatSessions s)))),
                    (''timestamp'', JStr now)]\<rparr> \<and>
         distinct (Map_keys (chatSessions s)) \<and>
         (\<forall>k. k \<in> set (Map_keys (chatSessions s)) \<longleftrightarrow> Map_get (chatSessions s) k \<noteq> None) \<and>
         (\<forall>k \<in> set (Map_keys (chatSessions s)).
            \<exists>ut sid. ut \<in> set validUserTypes \<and> k = ut @ ''_'' @ sid) \<and>
         (\<forall>s'. Map_keys (chatSessions s') = Map_keys (chatSessions s) \<longrightarrow>
               fst (listActiveSessions now s') = fst (listActiveSessions now s))"
  using reachable_keys [OF assms]
  by (simp add: listActiveSessions_def res_json_def Map_get_None_iff)

lemma reachable_after_first_chat:
  "reachable (snd (post_api_chat None ''t'' initial
      \<lparr>message = JStr ''How do I start a bakery?'', userType = JStr ''aspiring'',
       sessionId = Some ''s1''\<rparr> CreateOk (SendResolves ''Write a plan.'')))"
  unfolding post_state_begin by (rule reachable_chat [OF reachable_initial])

theorem listActiveSessions_snapshot_witness:
  "reachable (snd (post_api_chat None ''t'' initial
      \<lparr>message = JStr ''How do I start a bakery?'', userType = JStr ''aspiring'',
       sessionId = Some ''s1''\<rparr> CreateOk (SendResolves ''Write a plan.''))) \<and>
   fst (listActiveSessions ''t2'' (snd (post_api_chat None ''t'' initial
      \<lparr>message = JStr ''How do I start a bakery?'', userType = JStr ''aspiring'',
       sessionId = Some ''s1''\<rparr> CreateOk (SendResolves ''Write a plan.'')))) =
     \<lparr>status = 200,
      body = [(''activeSessions'', JNum 1), (''sessions'', JArr [JStr ''aspiring_s1'']),
              (''timestamp'', JStr ''t2'')]\<rparr>"
  using listActiveSessions_snapshot [OF reachable_after_first_chat, of "''t2''"]
    reachable_after_first_chat
  by (simp add: eval_defs Map_keys_def)

subsection \<open>Requests in flight for one key\<close>

lemma set_update_subset: "t \<in> set (ts[i := x]) \<Longrightarrow> t = x \<or> t \<in> set ts"
  using set_update_subset_insert [of ts i x] by auto

lemma step_started:
  assumes "started k c0 calls0 cfg"
  shows "started k c0 calls0 (step node_env ev cfg)"
proof -
  obtain i now where ev: "ev = (i, now)" by (cases ev)
  obtain s ts where cfg: "cfg = (s, ts)" by (cases cfg)
  from assms cfg obtain h sent where
    get: "Map_get (chatSessions s) k = Some h" and id: "chatId h = c0" and
    cr: "created s = Suc c0" and one: "entries_for k (chatSessions s) = 1" and
    calls: "upstreamCalls s =
      calls0 @ StartChat (model h) (systemInstruction h) (generationConfig h) # map (SendMessage c0) sent" and
    tasks: "\<forall>t \<in> set ts. case t of
             Arrived req co so \<Rightarrow> \<not> invalid_message (message req) \<and> key_of req = k
           | Awaiting p so \<Rightarrow> p_chat p = h
           | Responded r \<Rightarrow> True"
    unfolding started_def by auto
  show ?thesis
  proof (cases "i < length ts")
    case False
    then show ?thesis using assms by (simp add: step_def ev cfg)
  next
    case True
    then have mem: "ts ! i \<in> set ts" by simp
    show ?thesis
    proof (cases "ts ! i")
      case (Arrived req co so)
      with tasks mem have v: "\<not> invalid_message (message req)" and k: "key_of req = k"
        by (auto dest!: bspec)
      let ?p = "\<lparr>p_chat = h, p_sessionKey = key_of req, p_userType = selectedUserType (userType req),
                 p_sessionId = sessionId_or_default (sessionId req)\<rparr>"
      have b: "chat_begin s req co = (Inr ?p, send_to s h (trimmed (message req)))"
        using v get k by (simp add: chat_begin_present)
      have st: "step node_env ev cfg = (send_to s h (trimmed (message req)), ts[i := Awaiting ?p so])"
        using True Arrived by (simp add: step_def ev cfg b)
      have tasks': "\<forall>t \<in> set (ts[i := Awaiting ?p so]). case t of
             Arrived req co so \<Rightarrow> \<not> invalid_message (message req) \<and> key_of req = k
           | Awaiting p so \<Rightarrow> p_chat p = h
           | Responded r \<Rightarrow> True"
        using tasks by (auto dest!: set_update_subset)
      have calls': "upstreamCalls (send_to s h (trimmed (message req))) =
          calls0 @ StartChat (model h) (systemInstruction h) (generationConfig h) #
            map (SendMessage c0) (sent @ [trimmed (message req)])"
        by (simp add: calls id)
      show ?thesis
        unfolding started_def st
        using get id cr one calls' tasks' by (intro exI [of _ h] exI [of _ "sent @ [trimmed (message req)]"]) simp
    next
      case (Awaiting p so)
      then have st: "step node_env ev cfg = (s, ts[i := Responded (chat_resume node_env now p so)])"
        using True by (simp add: step_def ev cfg)
      have tasks': "\<forall>t \<in> set (ts[i := Responded (chat_resume node_env now p so)]). case t of
             Arrived req co so \<Rightarrow> \<not> invalid_message (message req) \<and> key_of req = k
           | Awaiting p so \<Rightarrow> p_chat p = h
           | Responded r \<Rightarrow> True"
        using tasks by (auto dest!: set_update_subset)
      show ?thesis
        unfolding started_def st
        using get id cr one calls tasks' by (intro exI [of _ h] exI [of _ sent]) simp
    next
      case (Responded r)
      then show ?thesis using assms True by (simp add: step_def ev cfg)
    qed
  qed
qed

lemma run_started:
  "started k c0 calls0 cfg \<Longrightarrow> started k c0 calls0 (run node_env sched cfg)"
  by (induction sched arbitrary: cfg) (simp_all add: step_started)

lemma step_first:
  assumes absent: "Map_get (chatSessions s) k = None"
      and all: "\<forall>t \<in> set ts. \<exists>req so. t = Arrived req CreateOk so \<and>
                  \<not> invalid_message (message req) \<and> key_of req = k"
      and i: "fst ev < length ts"
  shows "started k (created s) (upstreamCalls s) (step node_env ev (s, ts))"
proof -
  obtain i now where ev: "ev = (i, now)" by (cases ev)
  from i ev have il: "i < length ts" by simp
  then have "ts ! i \<in> set ts" by simp
  with all obtain req so where t: "ts ! i = Arrived req CreateOk so"
    and v: "\<not> invalid_message (message req)" and k: "key_of req = k" by blast
  let ?h = "new_chat s (selectedUserType (userType req))"
  let ?p = "\<lparr>p_chat = ?h, p_sessionKey = key_of req, p_userType = selectedUserType (userType req),
             p_sessionId = sessionId_or_default (sessionId req)\<rparr>"
  let ?s' = "send_to (s\<lparr>upstreamCalls := upstreamCalls s @
                 [StartChat ''gemini-1.5-flash'' (map_of instructions (selectedUserType (userType req)))
                    defaultGenerationConfig],
               chatSessions := Map_set (key_of req) ?h (chatSessions s),
               created := Suc (created s)\<rparr>) ?h (trimmed (message req))"
  have b: "chat_begin s req CreateOk = (Inr ?p, ?s')"
    using v absent k by (simp add: chat_begin_created)
  have st: "step node_env ev (s, ts) = (?s', ts[i := Awaiting ?p so])"
    using il t by (simp add: step_def ev b)
  have tasks': "\<forall>t \<in> set (ts[i := Awaiting ?p so]). case t of
             Arrived req co so \<Rightarrow> \<not> invalid_message (message req) \<and> key_of req = k
           | Awaiting p so \<Rightarrow> p_chat p = ?h
           | Responded r \<Rightarrow> True"
    using all by (auto dest!: set_update_subset)
  show ?thesis
    unfolding started_def st
    using tasks' absent k
    by (intro exI [of _ ?h] exI [of _ "[trimmed (message req)]"])
       (simp add: Map_get_set entries_for_set new_chat_def)
qed

lemma step_out_of_range: "\<not> fst ev < length ts \<Longrightarrow> step node_env ev (s, ts) = (s, ts)"
  by (cases ev) (simp add: step_def)

lemma run_fresh:
  assumes absent: "Map_get (chatSessions s) k = None"
      and all: "\<forall>t \<in> set ts. \<exists>req so. t = Arrived req CreateOk so \<and>
                  \<not> invalid_message (message req) \<and> key_of req = k"
  shows "(if \<exists>ev \<in> set sched. fst ev < length ts
          then started k (created s) (upstreamCalls s) (run node_env sched (s, ts))
          else run node_env sched (s, ts) = (s, ts))"
proof (induction sched)
  case Nil
  then show ?case by simp
next
  case (Cons ev evs)
  show ?case
  proof (cases "fst ev < length ts")
    case True
    then show ?thesis
      using run_started [OF step_first [OF absent all True]] by auto
  next
    case False
    then show ?thesis using Cons.IH by (simp add: step_out_of_range)
  qed
qed

text \<open>With one request in flight the event loop does what the handler does from start to
  end.\<close>

lemma run_one_request:
  "run node_env [(0, t0), (0, now)] (s, [Arrived req co so]) =
     (snd (post_api_chat node_env now s req co so),
      [Responded (fst (post_api_chat node_env now s req co so))])"
  by (cases "chat_begin s req co")
     (auto simp: step_def post_api_chat_def split: sum.splits)

text \<open>
  Claim C9. Let any number of valid first requests for one key that has no entry be in
  flight, each with a creation that succeeds, and let the event loop interleave their parts
  in any order. At every moment at most one chat has been created and the table holds at
  most one entry under the key; every suspended request holds the chat the table holds,
  which is the first one created. Once any of the requests has run, exactly one chat has
  been created: the collaborator was asked for one chat and every message was sent on it.
\<close>

theorem concurrent_first_calls_create_one_handle:
  assumes "Map_get (chatSessions s) k = None"
      and "\<forall>t \<in> set ts. \<exists>req so. t = Arrived req CreateOk so \<and>
             \<not> invalid_message (message req) \<and> key_of req = k"
      and "run node_env sched (s, ts) = (s', ts')"
  shows "created s' \<le> Suc (created s) \<and>
         entries_for k (chatSessions s') \<le> 1 \<and>
         (\<forall>p so. Awaiting p so \<in> set ts' \<longrightarrow>
            Map_get (chatSessions s') k = Some (p_chat p) \<and> chatId (p_chat p) = created s) \<and>
         ((\<exists>ev \<in> set sched. fst ev < length ts) \<longrightarrow>
            (\<exists>h sent.
               Map_get (chatSessions s') k = Some h \<and> chatId h = created s \<and>
               created s' = Suc (created s) \<and>
               entries_for k (chatSessions s') = 1 \<and>
               upstreamCalls s' =
                 upstreamCalls s @
                   StartChat (model h) (systemInstruction h) (generationConfig h) #
                   map (SendMessage (created s)) sent)) \<and>
         (\<not> (\<exists>ev \<in> set sched. fst ev < length ts) \<longrightarrow> s' = s \<and> ts' = ts)"
proof (cases "\<exists>ev \<in> set sched. fst ev < length ts")
  case True
  then have "started k (created s) (upstreamCalls s) (s', ts')"
    using run_fresh [OF assms(1,2), of sched node_env] assms(3) by simp
  then obtain h sent where
    get: "Map_get (chatSessions s') k = Some h" and id: "chatId h = created s" and
    cr: "created s' = Suc (created s)" and one: "entries_for k (chatSessions s') = 1" and
    calls: "upstreamCalls s' = upstreamCalls s @
       StartChat (model h) (systemInstruction h) (generationConfig h) # map (SendMessage (created s)) sent" and
    tasks: "\<forall>t \<in> set ts'. case t of
             Arrived req co so \<Rightarrow> \<not> invalid_message (message req) \<and> key_of req = k
           | Awaiting p so \<Rightarrow> p_chat p = h
           | Responded r \<Rightarrow> True"
    unfolding started_def by auto
  have "Map_get (chatSessions s') k = Some (p_chat p) \<and> chatId (p_chat p) = created s"
    if "Awaiting p so \<in> set ts'" for p so
    using tasks that get id by (auto dest!: bspec)
  then show ?thesis using True get id cr one calls by auto
next
  case False
  then have "(s', ts') = (s, ts)"
    using run_fresh [OF assms(1,2), of sched node_env] assms(3) by simp
  moreover have "\<not> Awaiting p so \<in> set ts" for p so
    using assms(2) by auto
  ultimately show ?thesis
    using False assms(1) by (auto simp: entries_for_absent)
qed

theorem concurrent_first_calls_create_one_handle_witness:
  "Map_get (chatSessions initial) ''aspiring_s1'' = None \<and>
   run None [(1, ''t1''), (0, ''t2''), (2, ''t3''), (0, ''t4''), (1, ''t5'')]
     (initial,
      [Arrived \<lparr>message = JStr ''How do I start a bakery?'', userType = JStr ''aspiring'',
                sessionId = Some ''s1''\<rparr> CreateOk (SendResolves ''Write a plan.''),
       Arrived \<lparr>message = JStr ''What about funding?'', userType = JStr ''aspiring'',
                sessionId = Some ''s1''\<rparr> CreateOk TimerFirst,
       Arrived \<lparr>message = JStr ''Which licence?'', userType = JStr ''aspiring'',
                sessionId = Some ''s1''\<rparr> CreateOk (SendResolves ''Ask the council.'')]) =
     (\<lparr>chatSessions =
         [(''aspiring_s1'',
           \<lparr>chatId = 0, model = ''gemini-1.5-flash'', systemInstruction = Some instruction_aspiring,
            generationConfig = defaultGenerationConfig\<rparr>)],
       created = 1,
       upstreamCalls =
         [StartChat ''gemini-1.5-flash'' (Some instruction_aspiring) defaultGenerationConfig,
          SendMessage 0 ''What about funding?'',
          SendMessage 0 ''How do I start a bakery?'',
          SendMessage 0 ''Which licence?'']\<rparr>,
      [Responded \<lparr>status = 200,
          body = [(''reply'', JStr ''Write a plan.''), (''userType'', JStr ''aspiring''),
                  (''sessionId'', JStr ''s1''), (''success'', JBool True),
                  (''timestamp'', JStr ''t4'')]\<rparr>,
       Responded \<lparr>status = 408,
          body = [(''error'', JStr ''Request timed out. Please try again.''),
                  (''success'', JBool False), (''timestamp'', JStr ''t5'')]\<rparr>,
       Awaiting \<lparr>p_chat = \<lparr>chatId = 0, model = ''gemini-1.5-flash'',
                    systemInstruction = Some instruction_aspiring,
                    generationConfig = defaultGenerationConfig\<rparr>,
                 p_sessionKey = ''aspiring_s1'', p_userType = ''aspiring'', p_sessionId = ''s1''\<rparr>
          (SendResolves ''Ask the council.'')]) \<and>
   entries_for ''aspiring_s1'' (chatSessions (fst (
     run None [(1, ''t1''), (0, ''t2''), (2, ''t3''), (0, ''t4''), (1, ''t5'')]
     (initial,
      [Arrived \<lparr>message = JStr ''How do I start a bakery?'', userType = JStr ''aspiring'',
                sessionId = Some ''s1''\<rparr> CreateOk (SendResolves ''Write a plan.''),
       Arrived \<lparr>message = JStr ''What about funding?'', userType = JStr ''aspiring'',
                sessionId = Some ''s1''\<rparr> CreateOk TimerFirst,
       Arrived \<lparr>message = JStr ''Which licence?'', userType = JStr ''aspiring'',
                sessionId = Some ''s1''\<rparr> CreateOk (SendResolves ''Ask the council.'')])))) = 1"
proof -
  let ?ts = "[Arrived \<lparr>message = JStr ''How do I start a bakery?'', userType = JStr ''aspiring'',
                sessionId = Some ''s1''\<rparr> CreateOk (SendResolves ''Write a plan.''),
       Arrived \<lparr>message = JStr ''What about funding?'', userType = JStr ''aspiring'',
                sessionId = Some ''s1''\<rparr> CreateOk TimerFirst,
       Arrived \<lparr>message = JStr ''Which licence?'', userType = JStr ''aspiring'',
                sessionId = Some ''s1''\<rparr> CreateOk (SendResolves ''Ask the council.'')]"
  let ?sched = "[(1, ''t1''), (0, ''t2''), (2, ''t3''), (0, ''t4''), (1, ''t5'')] :: (nat \<times> string) list"
  have absent: "Map_get (chatSessions initial) ''aspiring_s1'' = None"
    by (simp add: initial_def Map_get_def)
  have all: "\<forall>t \<in> set ?ts. \<exists>req so. t = Arrived req CreateOk so \<and>
             \<not> invalid_message (message req) \<and> key_of req = ''aspiring_s1''"
    by (simp add: eval_defs)
  have r: "run None ?sched (initial, ?ts) =
      (fst (run None ?sched (initial, ?ts)), snd (run None ?sched (initial, ?ts)))"
    by simp
  show ?thesis
    using concurrent_first_calls_create_one_handle [OF absent all r]
    by (simp add: eval_defs step_def entries_for_def)
qed

subsection \<open>Further properties of the handlers\<close>

lemma sessionKey_valid_inj:
  assumes "ut \<in> set validUserTypes" and "ut' \<in> set validUserTypes"
  shows "sessionKey ut sid = sessionKey ut' sid' \<longleftrightarrow> ut = ut' \<and> sid = sid'"
  using assms by (auto simp: validUserTypes_def sessionKey_def)

text \<open>
  Two requests get the same session key exactly when they agree on the selected user
  type and on the session id: no two pairs share a key.
\<close>

theorem session_keys_injective:
  "key_of req = key_of req' \<longleftrightarrow>
     selectedUserType (userType req) = selectedUserType (userType req') \<and>
     sessionId_or_default (sessionId req) = sessionId_or_default (sessionId req')"
  unfolding key_of_def
  by (rule sessionKey_valid_inj [OF selectedUserType_valid selectedUserType_valid])

lemma selectedUserType_unknown:
  "u \<notin> JStr ` set validUserTypes \<Longrightarrow> selectedUserType u = ''general''"
  by (cases u) (auto simp: selectedUserType_def)

lemma selectedUserType_general: "selectedUserType (JStr ''general'') = ''general''"
  by (simp add: selectedUserType_def validUserTypes_def)

text \<open>
  A request whose \<open>userType\<close> is not one of the three strings, absent or of another
  type included, is served exactly as the same request with \<open>userType\<close> \<open>general\<close>: same
  response, same state.
\<close>

theorem unknown_user_type_is_general:
  assumes "userType req \<notin> JStr ` set validUserTypes"
  shows "post_api_chat node_env now s req co so =
           post_api_chat node_env now s (req\<lparr>userType := JStr ''general''\<rparr>) co so"
proof -
  have "chat_begin s req co = chat_begin s (req\<lparr>userType := JStr ''general''\<rparr>) co"
    using assms
    by (simp add: chat_begin_def Let_def selectedUserType_unknown selectedUserType_general
        split: option.splits create_outcome.splits)
  then show ?thesis by (simp add: post_api_chat_def)
qed

theorem unknown_user_type_is_general_witness:
  "JStr ''investor'' \<notin> JStr ` set validUserTypes \<and>
   post_api_chat None ''t'' initial
      \<lparr>message = JStr ''How do I start a bakery?'', userType = JStr ''investor'',
       sessionId = Some ''s1''\<rparr> CreateOk (SendResolves '' Write a plan. '') =
     (\<lparr>status = 200,
       body = [(''reply'', JStr ''Write a plan.''), (''userType'', JStr ''general''),
               (''sessionId'', JStr ''s1''), (''success'', JBool True),
               (''timestamp'', JStr ''t'')]\<rparr>,
      \<lparr>chatSessions =
         [(''general_s1'',
           \<lparr>chatId = 0, model = ''gemini-1.5-flash'', systemInstruction = Some instruction_general,
            generationConfig = defaultGenerationConfig\<rparr>)],
       created = 1,
       upstreamCalls =
         [StartChat ''gemini-1.5-flash'' (Some instruction_general) defaultGenerationConfig,
          SendMessage 0 ''How do I start a bakery?'']\<rparr>)"
  using unknown_user_type_is_general
    [of "\<lparr>message = JStr ''How do I start a bakery?'', userType = JStr ''investor'',
          sessionId = Some ''s1''\<rparr>" None "''t''" initial CreateOk "SendResolves '' Write a plan. ''"]
  by (simp add: eval_defs)

text \<open>
  A valid request whose send resolves is answered with status 200 and the trimmed
  reply, the selected user type, the session id (\<open>default\<close> when absent), \<open>success: true\<close>
  and the timestamp.
\<close>

theorem success_response:
  assumes "\<not> invalid_message (message req)"
      and "co = CreateOk \<or> Map_get (chatSessions s) (key_of req) \<noteq> None"
  shows "fst (post_api_chat node_env now s req co (SendResolves reply)) =
           \<lparr>status = 200,
            body = [(''reply'', JStr (trim reply)),
                    (''userType'', JStr (selectedUserType (userType req))),
                    (''sessionId'', JStr (sessionId_or_default (sessionId req))),
                    (''success'', JBool True),
                    (''timestamp'', JStr now)]\<rparr>"
proof (cases rule: chat_begin_cases [of req s co])
  case invalid
  with assms show ?thesis by simp
next
  case (throws e)
  with assms show ?thesis by simp
next
  case (sent p)
  have "p_userType p = selectedUserType (userType req) \<and>
        p_sessionId p = sessionId_or_default (sessionId req)"
  proof (cases "Map_get (chatSessions s) (key_of req)")
    case None
    with assms have "co = CreateOk" by simp
    with sent None show ?thesis by (auto simp: chat_begin_created)
  next
    case (Some h)
    with sent show ?thesis by (auto simp: chat_begin_present)
  qed
  with sent show ?thesis by (simp add: post_fst chat_resume_def res_json_def)
qed

theorem success_response_witness:
  "\<not> invalid_message (message \<lparr>message = JStr ''How do I start a bakery?'',
        userType = JStr ''aspiring'', sessionId = None\<rparr>) \<and>
   fst (post_api_chat None ''2024-01-01T12:00:00.000Z'' initial
      \<lparr>message = JStr ''How do I start a bakery?'', userType = JStr ''aspiring'',
       sessionId = None\<rparr> CreateOk (SendResolves '' Write a plan. '')) =
     \<lparr>status = 200,
      body = [(''reply'', JStr ''Write a plan.''), (''userType'', JStr ''aspiring''),
              (''sessionId'', JStr ''default''), (''success'', JBool True),
              (''timestamp'', JStr ''2024-01-01T12:00:00.000Z'')]\<rparr>"
  using success_response
    [of "\<lparr>message = JStr ''How do I start a bakery?'', userType = JStr ''aspiring'',
          sessionId = None\<rparr>" CreateOk initial None "''2024-01-01T12:00:00.000Z''"
        "'' Write a plan. ''"]
  by (simp add: eval_defs)

lemma set_Map_delete: "set (Map_delete k m) \<subseteq> set m"
  by (auto simp: Map_delete_def)

lemma distinct_ids_delete:
  "distinct (map (\<lambda>p. chatId (snd p)) m) \<Longrightarrow>
   distinct (map (\<lambda>p. chatId (snd p)) (Map_delete k m))"
  by (simp add: Map_delete_def distinct_map_filter)

lemma created_chat_begin:
  "created (snd (chat_begin s req co)) =
     (if \<not> invalid_message (message req) \<and> Map_get (chatSessions s) (key_of req) = None \<and> co = CreateOk
      then Suc (created s) else created s)"
proof (cases "invalid_message (message req)")
  case True
  then show ?thesis by (simp add: chat_begin_def)
next
  case v: False
  show ?thesis
  proof (cases "Map_get (chatSessions s) (key_of req)")
    case (Some h)
    then show ?thesis using v by (simp add: chat_begin_present)
  next
    case None
    then show ?thesis using v
      by (cases co) (simp_all add: chat_begin_created chat_begin_create_throws)
  qed
qed

lemma ids_Map_set_absent:
  "Map_get m k = None \<Longrightarrow>
   map (\<lambda>p. chatId (snd p)) (Map_set k v m) = map (\<lambda>p. chatId (snd p)) m @ [chatId v]"
  by (induction m) (auto simp: Map_get_def split: if_splits)

lemma reachable_ids:
  assumes "reachable s"
  shows "distinct (map (\<lambda>p. chatId (snd p)) (chatSessions s)) \<and>
         (\<forall>p \<in> set (chatSessions s). chatId (snd p) < created s)"
  using assms
proof (induction rule: reachable.induct)
  case reachable_initial
  then show ?case by (simp add: initial_def)
next
  case (reachable_chat s req co)
  let ?s' = "snd (chat_begin s req co)"
  show ?case
  proof (cases "\<not> invalid_message (message req) \<and> Map_get (chatSessions s) (key_of req) = None \<and> co = CreateOk")
    case True
    let ?h = "new_chat s (selectedUserType (userType req))"
    have none: "Map_get (chatSessions s) (key_of req) = None" using True by simp
    have t: "chatSessions ?s' = Map_set (key_of req) ?h (chatSessions s)"
      using True by (simp add: chat_begin_table)
    have cr: "created ?s' = Suc (created s)" using True by (simp add: created_chat_begin)
    have ids: "map (\<lambda>p. chatId (snd p)) (chatSessions ?s') =
        map (\<lambda>p. chatId (snd p)) (chatSessions s) @ [created s]"
      unfolding t using none by (simp add: ids_Map_set_absent new_chat_def)
    have d: "distinct (map (\<lambda>p. chatId (snd p)) (chatSessions ?s'))"
      unfolding ids using reachable_chat.IH by auto
    have "\<forall>i \<in> set (map (\<lambda>p. chatId (snd p)) (chatSessions ?s')). i < created ?s'"
      unfolding ids cr using reachable_chat.IH by (auto simp: less_Suc_eq)
    then show ?thesis using d by simp
  next
    case False
    then have "chatSessions ?s' = chatSessions s" and "created ?s' = created s"
      by (auto simp: chat_begin_table created_chat_begin)
    with reachable_chat.IH show ?thesis by simp
  qed
next
  case (reachable_delete s sid q)
  then show ?case
    using set_Map_delete [of "delete_key_of q sid" "chatSessions s"]
    by (auto simp: delete_api_chat_eq distinct_ids_delete)
qed

text \<open>
  In every state the server reaches, the chats stored under two keys are the same
  object only if the keys are the same, and every stored chat was created before: no
  two sessions share a conversation.
\<close>

theorem stored_chats_are_distinct_objects:
  assumes "reachable s"
      and "Map_get (chatSessions s) k = Some h" and "Map_get (chatSessions s) k' = Some h'"
  shows "(chatId h = chatId h' \<longleftrightarrow> k = k') \<and> chatId h < created s"
proof -
  have dk: "distinct (map fst (chatSessions s))"
    using reachable_keys [OF assms(1)] by (simp add: Map_keys_def)
  have di: "distinct (map (\<lambda>p. chatId (snd p)) (chatSessions s))"
    and lt: "\<forall>p \<in> set (chatSessions s). chatId (snd p) < created s"
    using reachable_ids [OF assms(1)] by simp_all
  have m: "(k, h) \<in> set (chatSessions s)" and m': "(k', h') \<in> set (chatSessions s)"
    using assms(2,3) by (auto simp: Map_get_def dest: map_of_SomeD)
  have "k = k'" if "chatId h = chatId h'"
  proof -
    have "inj_on (\<lambda>p. chatId (snd p)) (set (chatSessions s))"
      using di by (simp add: distinct_map)
    moreover have "(\<lambda>p. chatId (snd p)) (k, h) = (\<lambda>p. chatId (snd p)) (k', h')"
      using that by simp
    ultimately have "(k, h) = (k', h')" using m m' by (rule inj_onD)
    then show ?thesis by simp
  qed
  moreover have "chatId h = chatId h'" if "k = k'" using that assms(2,3) by simp
  moreover have "chatId h < created s" using lt m by auto
  ultimately show ?thesis by blast
qed

theorem stored_chats_are_distinct_objects_witness:
  "reachable (snd (post_api_chat None ''t'' initial
      \<lparr>message = JStr ''How do I start a bakery?'', userType = JStr ''aspiring'',
       sessionId = Some ''s1''\<rparr> CreateOk (SendResolves ''Write a plan.''))) \<and>
   Map_get (chatSessions (snd (post_api_chat None ''t'' initial
      \<lparr>message = JStr ''How do I start a bakery?'', userType = JStr ''aspiring'',
       sessionId = Some ''s1''\<rparr> CreateOk (SendResolves ''Write a plan.'')))) ''aspiring_s1'' =
     Some \<lparr>chatId = 0, model = ''gemini-1.5-flash'', systemInstruction = Some instruction_aspiring,
           generationConfig = defaultGenerationConfig\<rparr> \<and>
   created (snd (post_api_chat None ''t'' initial
      \<lparr>message = JStr ''How do I start a bakery?'', userType = JStr ''aspiring'',
       sessionId = Some ''s1''\<rparr> CreateOk (SendResolves ''Write a plan.''))) = 1"
proof -
  let ?s = "snd (post_api_chat None ''t'' initial
      \<lparr>message = JStr ''How do I start a bakery?'', userType = JStr ''aspiring'',
       sessionId = Some ''s1''\<rparr> CreateOk (SendResolves ''Write a plan.''))"
  let ?h = "\<lparr>chatId = 0, model = ''gemini-1.5-flash'', systemInstruction = Some instruction_aspiring,
           generationConfig = defaultGenerationConfig\<rparr>"
  have g: "Map_get (chatSessions ?s) ''aspiring_s1'' = Some ?h" by (simp add: eval_defs)
  have c: "created ?s = 1" by (simp add: eval_defs)
  show ?thesis
    using stored_chats_are_distinct_objects [OF reachable_after_first_chat g g] g c
      reachable_after_first_chat
    by simp
qed

end
